theory Spec2Isabelle
  imports Main "HOL-Library.Multiset"
begin

section \<open>The quiz engine of model.js and the difficulty helpers of controller.js\<close>

text \<open>
  The model follows \<^verbatim>\<open>src/assets/js/model.js\<close> (class QuizEngine) and the two
  difficulty helpers at the end of \<^verbatim>\<open>src/assets/js/controller.js\<close>.

  Conventions of the embedding:
  \<^item> \<^verbatim>\<open>Math.random()\<close> is the only source of nondeterminism. Every use in the source has
    the shape \<^verbatim>\<open>Math.floor(Math.random() * n)\<close>, a number in \<open>{0..<n}\<close>. The model threads
    a tape of natural numbers through the code; a draw below \<open>n\<close> consumes the head \<open>r\<close>
    of the tape and yields \<open>r mod n\<close>. Every possible run of the source is the run of the
    model on some tape, and the other way round.
  \<^item> A JavaScript string is a \<open>string\<close>; the empty string is the falsy one.
  \<^item> A country object carries the fields that the modelled methods read. The elements of
    \<^verbatim>\<open>this.countries\<close> are built by the object literal of loadFromRestCountries, so
    they are never null, their \<^verbatim>\<open>languages\<close> and \<^verbatim>\<open>currencies\<close> are arrays,
    and their populations are numbers; populations are taken to be integers, as in the dataset.
  \<^item> \<^verbatim>\<open>document.dispatchEvent\<close> appends to a log of dispatched events kept beside the
    engine's fields.
  \<^item> The texts built for display only (\<^verbatim>\<open>label\<close>, \<^verbatim>\<open>question\<close>,
    \<^verbatim>\<open>correctAnswerLabel\<close>, \<^verbatim>\<open>explanation\<close>) are left out: an option object is
    modelled by its \<^verbatim>\<open>value\<close>.
  \<^item> A call that does not return (a loop that runs forever) has the result \<open>None\<close>.
\<close>

subsection \<open>Random draws\<close>

type_synonym rng = "nat list"

text \<open>\<^verbatim>\<open>Math.floor(Math.random() * n)\<close>\<close>

fun random_below :: "nat \<Rightarrow> rng \<Rightarrow> nat \<times> rng" where
  "random_below n [] = (0, [])"
| "random_below n (r # rs) = (r mod n, rs)"

subsection \<open>Array helpers of the language\<close>

text \<open>\<^verbatim>\<open>Array.prototype.indexOf\<close> and \<^verbatim>\<open>findIndex\<close>: the first position, or \<open>-1\<close>.\<close>

fun findIndex :: "('a \<Rightarrow> bool) \<Rightarrow> 'a list \<Rightarrow> int" where
  "findIndex p [] = - 1"
| "findIndex p (x # xs) =
     (if p x then 0 else (let r = findIndex p xs in if r = - 1 then - 1 else r + 1))"

definition indexOf :: "'a list \<Rightarrow> 'a \<Rightarrow> int" where
  "indexOf xs v = findIndex (\<lambda>x. x = v) xs"

text \<open>\<^verbatim>\<open>Array.from(new Set(xs))\<close>: the first occurrence of every value, in order.\<close>

fun unique_from :: "'a set \<Rightarrow> 'a list \<Rightarrow> 'a list" where
  "unique_from seen [] = []"
| "unique_from seen (x # xs) =
     (if x \<in> seen then unique_from seen xs else x # unique_from (insert x seen) xs)"

definition unique_values :: "'a list \<Rightarrow> 'a list" where
  "unique_values xs = unique_from {} xs"

text \<open>\<^verbatim>\<open>a.splice(index, 1)\<close>: the array without the element at \<open>index\<close>.\<close>

definition splice1 :: "nat \<Rightarrow> 'a list \<Rightarrow> 'a list" where
  "splice1 index xs = take index xs @ drop (Suc index) xs"

subsection \<open>shuffleArray\<close>

text \<open>
  The loop \<^verbatim>\<open>for (let i = shuffled.length - 1; i > 0; i--)\<close> with the swap
  \<^verbatim>\<open>[shuffled[i], shuffled[j]] = [shuffled[j], shuffled[i]]\<close>; the first argument is \<open>i\<close>.
\<close>

fun shuffle_loop :: "nat \<Rightarrow> 'a list \<Rightarrow> rng \<Rightarrow> 'a list \<times> rng" where
  "shuffle_loop 0 shuffled rs = (shuffled, rs)"
| "shuffle_loop (Suc k) shuffled rs =
     (let (j, rs') = random_below (Suc k + 1) rs
      in shuffle_loop k (shuffled[Suc k := shuffled ! j, j := shuffled ! Suc k]) rs')"

definition shuffleArray :: "'a list \<Rightarrow> rng \<Rightarrow> 'a list \<times> rng" where
  "shuffleArray array rs = shuffle_loop (length array - 1) array rs"

text \<open>
  The same method over an explicit store of arrays, to speak about the argument array itself:
  an address is an index into the store, and the spread copy \<^verbatim>\<open>[...array]\<close> allocates a
  new array at the end of the store. The result is the address of the new array.
\<close>

type_synonym 'a store = "'a list list"

fun shuffle_loop_store :: "nat \<Rightarrow> nat \<Rightarrow> 'a store \<Rightarrow> rng \<Rightarrow> 'a store \<times> rng" where
  "shuffle_loop_store 0 shuffled st rs = (st, rs)"
| "shuffle_loop_store (Suc k) shuffled st rs =
     (let (j, rs') = random_below (Suc k + 1) rs;
          a = st ! shuffled
      in shuffle_loop_store k shuffled (st[shuffled := a[Suc k := a ! j, j := a ! Suc k]]) rs')"

definition shuffleArray_store :: "'a store \<Rightarrow> nat \<Rightarrow> rng \<Rightarrow> nat \<times> 'a store \<times> rng" where
  "shuffleArray_store st array rs =
     (let shuffled = length st;
          st1 = st @ [st ! array];
          (st2, rs') = shuffle_loop_store (length (st1 ! shuffled) - 1) shuffled st1 rs
      in (shuffled, st2, rs'))"

subsection \<open>Countries, the engine and its events\<close>

record country =
  name :: string
  population :: int
  popularity :: int
  languages :: "string list"
  currencies :: "string list"

datatype event =
    PoolUpdated "country list"
  | DifficultyChanged string
  | QuizReady nat

record quiz_engine =
  countries :: "country list"
  countryPool :: "country list"
  score :: int
  wrong :: int
  streak :: int
  questionNumber :: int
  totalQuestions :: int
  difficulty :: string
  dispatched :: "event list"

definition REST_COUNTRIES_SAMPLE_SIZE :: nat where
  "REST_COUNTRIES_SAMPLE_SIZE = 10"

text \<open>The constructor.\<close>

definition new_QuizEngine :: quiz_engine where
  "new_QuizEngine =
     \<lparr>countries = [], countryPool = [], score = 0, wrong = 0, streak = 0, questionNumber = 0,
      totalQuestions = 10, difficulty = ''easy'', dispatched = []\<rparr>"

definition dispatchEvent :: "event \<Rightarrow> quiz_engine \<Rightarrow> quiz_engine" where
  "dispatchEvent e q = q\<lparr>dispatched := dispatched q @ [e]\<rparr>"

subsection \<open>The difficulty settings\<close>

text \<open>
  \<^verbatim>\<open>this.difficultySettings\<close> is an object literal with the own keys easy, medium and hard.
  A property read \<^verbatim>\<open>this.difficultySettings[key]\<close> follows the prototype chain, so the
  property names of \<^verbatim>\<open>Object.prototype\<close> are found as well: their values are functions
  (and, for \<^verbatim>\<open>__proto__\<close>, the prototype object), all truthy, none with a
  \<^verbatim>\<open>popularOnly\<close> or \<^verbatim>\<open>countries\<close> property. Any other key reads as undefined.
  The field \<^verbatim>\<open>countries\<close> of a setting is called \<open>setting_countries\<close> here, since the
  engine has a field \<^verbatim>\<open>countries\<close> too.
\<close>

record difficulty_setting =
  setting_countries :: nat
  popularOnly :: bool

datatype property = Own difficulty_setting | Inherited | Absent

definition object_prototype_keys :: "string list" where
  "object_prototype_keys =
     [''constructor'', ''hasOwnProperty'', ''isPrototypeOf'', ''propertyIsEnumerable'',
      ''toLocaleString'', ''toString'', ''valueOf'', ''__proto__'', ''__defineGetter__'',
      ''__defineSetter__'', ''__lookupGetter__'', ''__lookupSetter__'']"

definition easy_setting :: difficulty_setting where
  "easy_setting = \<lparr>setting_countries = 30, popularOnly = True\<rparr>"

definition difficultySettings :: "string \<Rightarrow> property" where
  "difficultySettings key =
     (if key = ''easy'' then Own easy_setting
      else if key = ''medium'' then Own \<lparr>setting_countries = 100, popularOnly = False\<rparr>
      else if key = ''hard'' then Own \<lparr>setting_countries = 200, popularOnly = False\<rparr>
      else if key \<in> set object_prototype_keys then Inherited
      else Absent)"

subsection \<open>populateCountryPool\<close>

text \<open>
  The value of the local variable \<^verbatim>\<open>candidateList\<close> (lines 78 to 87). The comparator
  of the sort is \<^verbatim>\<open>(b.popularity || 0) - (a.popularity || 0)\<close>, a stable sort by falling
  popularity. With an inherited property as settings, \<^verbatim>\<open>settings.popularOnly\<close> is
  undefined, and \<^verbatim>\<open>Math.min(undefined, n)\<close> is NaN, so the slice is empty.
\<close>

definition candidateList :: "quiz_engine \<Rightarrow> rng \<Rightarrow> country list \<times> rng" where
  "candidateList q rs =
     (let settings = (case difficultySettings (difficulty q) of
                        Absent \<Rightarrow> Own easy_setting | p \<Rightarrow> p)
      in case settings of
           Own s \<Rightarrow>
             if popularOnly s
             then (take (setting_countries s) (sort_key (\<lambda>c. - popularity c) (countries q)), rs)
             else (let (shuffled, rs') = shuffleArray (countries q) rs
                   in (take (min (setting_countries s) (length (countries q))) shuffled, rs'))
         | _ \<Rightarrow> (let (shuffled, rs') = shuffleArray (countries q) rs in ([], rs')))"

definition populateCountryPool :: "quiz_engine \<Rightarrow> rng \<Rightarrow> quiz_engine \<times> rng" where
  "populateCountryPool q rs =
     (if countries q = [] then (dispatchEvent (PoolUpdated []) (q\<lparr>countryPool := []\<rparr>), rs)
      else
        let (candidates, rs1) = candidateList q rs;
            (shuffled, rs2) = shuffleArray candidates rs1;
            pool = take REST_COUNTRIES_SAMPLE_SIZE shuffled
        in (dispatchEvent (PoolUpdated pool) (q\<lparr>countryPool := pool\<rparr>), rs2))"

subsection \<open>setDifficulty and the controller's helpers\<close>

text \<open>The values a caller passes as \<^verbatim>\<open>level\<close>: null, undefined or a string.\<close>

datatype js_value = JsNull | JsUndefined | JsString string

text \<open>
  The guard is \<^verbatim>\<open>if (!level || !this.difficultySettings[level]) return\<close>: null, undefined
  and the empty string are falsy, and so is the value undefined of a key that is not found.
\<close>

fun setDifficulty :: "js_value \<Rightarrow> bool \<Rightarrow> quiz_engine \<Rightarrow> rng \<Rightarrow> quiz_engine \<times> rng" where
  "setDifficulty (JsString level) reload q rs =
     (if level = [] \<or> difficultySettings level = Absent then (q, rs)
      else
        let q1 = q\<lparr>difficulty := level\<rparr>;
            (q2, rs') = (if reload then populateCountryPool q1 rs else (q1, rs))
        in (dispatchEvent (DifficultyChanged (difficulty q2)) q2, rs'))"
| "setDifficulty _ reload q rs = (q, rs)"

definition getDifficulty :: "quiz_engine \<Rightarrow> string" where
  "getDifficulty q = difficulty q"

definition difficultyOrder :: "string list" where
  "difficultyOrder = [''easy'', ''medium'', ''hard'']"

definition upgradeDifficulty :: "quiz_engine \<Rightarrow> rng \<Rightarrow> quiz_engine \<times> rng" where
  "upgradeDifficulty q rs =
     (let current = getDifficulty q;
          order = difficultyOrder;
          idx = indexOf order current
      in if idx = - 1 \<or> idx \<ge> int (length order) - 1 then (q, rs)
         else setDifficulty (JsString (order ! nat (idx + 1))) False q rs)"

definition downgradeDifficulty :: "quiz_engine \<Rightarrow> rng \<Rightarrow> quiz_engine \<times> rng" where
  "downgradeDifficulty q rs =
     (let current = getDifficulty q;
          order = difficultyOrder;
          idx = indexOf order current
      in if idx \<le> 0 then (q, rs)
         else setDifficulty (JsString (order ! nat (idx - 1))) False q rs)"

subsection \<open>Number arithmetic of generatePopulationOptions\<close>

text \<open>
  The fallback multipliers are IEEE 754 doubles: the pair \<open>(m, e)\<close> stands for the double
  \<open>m / 2 ^ e\<close> nearest to the decimal literal of the source (0.55, 0.75, 1.2, 1.4, 1.8).
  \<^verbatim>\<open>correctValue * multiplier\<close> is the exact product rounded to 53 significant bits, ties
  to even; \<^verbatim>\<open>Math.round\<close> is \<open>\<lfloor>x + 1/2\<rfloor>\<close>. The model is exact for integer populations
  of magnitude below \<open>2 ^ 53\<close>.
\<close>

definition fallbackMultipliers :: "(int \<times> nat) list" where
  "fallbackMultipliers =
     [(2476979795053773, 52), (3, 2), (5404319552844595, 52), (3152519739159347, 51),
      (8106479329266893, 52)]"

text \<open>The number of binary digits of a positive integer.\<close>

function bit_length :: "int \<Rightarrow> nat" where
  "bit_length n = (if n \<le> 0 then 0 else Suc (bit_length (n div 2)))"
  by pat_completeness auto
termination
  by (relation "measure nat") auto

declare bit_length.simps [simp del]

text \<open>Rounding a non-negative integer to 53 significant bits, ties to even.\<close>

definition round53 :: "int \<Rightarrow> int" where
  "round53 p =
     (let l = bit_length p
      in if l \<le> 53 then p
         else
           let s = l - 53; q = p div 2 ^ s; r = p mod 2 ^ s; half = 2 ^ (s - 1);
               q' = (if r > half \<or> (r = half \<and> odd q) then q + 1 else q)
           in q' * 2 ^ s)"

text \<open>\<^verbatim>\<open>Math.round(correctValue * multiplier)\<close>\<close>

definition round_product :: "int \<Rightarrow> int \<times> nat \<Rightarrow> int" where
  "round_product correctValue multiplier =
     (case multiplier of (m, e) \<Rightarrow>
        let n = sgn correctValue * round53 (\<bar>correctValue\<bar> * m)
        in (2 * n + 2 ^ e) div (2 * 2 ^ e))"

subsection \<open>Filters over countries\<close>

definition hasDataForType :: "country \<Rightarrow> string \<Rightarrow> bool" where
  "hasDataForType country type =
     (if type = ''population'' then population country > 0
      else if type = ''currency'' then currencies country \<noteq> [] \<and> hd (currencies country) \<noteq> []
      else if type = ''languages'' then languages country \<noteq> [] \<and> hd (languages country) \<noteq> []
      else False)"

fun uniqueByName_from :: "string set \<Rightarrow> country list \<Rightarrow> country list" where
  "uniqueByName_from seen [] = []"
| "uniqueByName_from seen (country # rest) =
     (if name country = [] then uniqueByName_from seen rest
      else if name country \<in> seen then uniqueByName_from seen rest
      else country # uniqueByName_from (insert (name country) seen) rest)"

definition uniqueByName :: "country list \<Rightarrow> country list" where
  "uniqueByName cs = uniqueByName_from {} cs"

definition getCountriesForType :: "string \<Rightarrow> nat \<Rightarrow> quiz_engine \<Rightarrow> rng \<Rightarrow> country list \<times> rng" where
  "getCountriesForType type desiredCount q rs =
     (let (basePool, rs') =
            (if countryPool q \<noteq> [] then (countryPool q, rs)
             else
               let (shuffled, rs1) = shuffleArray (countries q) rs
               in (take (max (if desiredCount = 0 then REST_COUNTRIES_SAMPLE_SIZE else desiredCount)
                             REST_COUNTRIES_SAMPLE_SIZE) shuffled, rs1));
          filteredBase = filter (\<lambda>country. hasDataForType country type) basePool
      in if filteredBase \<noteq> [] then (uniqueByName filteredBase, rs')
         else
           let extended = filter (\<lambda>country. hasDataForType country type) (countries q)
           in (uniqueByName (filteredBase @ extended), rs'))"

text \<open>\<^verbatim>\<open>country[key]\<close> when it is an array, else the empty array.\<close>

definition array_field :: "string \<Rightarrow> country \<Rightarrow> string list" where
  "array_field key country =
     (if key = ''currencies'' then currencies country
      else if key = ''languages'' then languages country
      else [])"

text \<open>The two nested forEach loops of collectUniqueValues, over the pair (seen, values).\<close>

fun collect_items :: "string list \<Rightarrow> string set \<times> string list \<Rightarrow> string set \<times> string list" where
  "collect_items [] sv = sv"
| "collect_items (item # items) (seen, vals) =
     (if item = [] \<or> item \<in> seen then collect_items items (seen, vals)
      else collect_items items (insert item seen, vals @ [item]))"

fun collect_countries ::
  "string \<Rightarrow> string \<Rightarrow> country list \<Rightarrow> string set \<times> string list \<Rightarrow> string set \<times> string list" where
  "collect_countries key excludeCountryName [] sv = sv"
| "collect_countries key excludeCountryName (country # rest) sv =
     (if name country = excludeCountryName then collect_countries key excludeCountryName rest sv
      else collect_countries key excludeCountryName rest (collect_items (array_field key country) sv))"

definition collectUniqueValues :: "country list \<Rightarrow> string \<Rightarrow> string \<Rightarrow> string list" where
  "collectUniqueValues pool key excludeCountryName =
     snd (collect_countries key excludeCountryName pool ({}, []))"

subsection \<open>Drawing distractors\<close>

text \<open>
  The loop \<^verbatim>\<open>while (candidates.length > 0 && distractors.length < 3)\<close>, which the source
  writes three times: a random candidate is spliced out and pushed onto the distractors
  when it passes the test \<open>accept\<close>. The test is \<^verbatim>\<open>candidate !== correctValue\<close> for
  populations and \<^verbatim>\<open>!distractors.includes(candidate)\<close> for currencies and languages.
\<close>

function draw_distractors ::
  "('a \<Rightarrow> 'a list \<Rightarrow> bool) \<Rightarrow> 'a list \<Rightarrow> 'a list \<Rightarrow> rng \<Rightarrow> 'a list \<times> rng" where
  "draw_distractors accept candidates distractors rs =
     (if candidates \<noteq> [] \<and> length distractors < 3 then
        let index = fst (random_below (length candidates) rs);
            rs' = snd (random_below (length candidates) rs);
            candidate = candidates ! index
        in draw_distractors accept (splice1 index candidates)
             (if accept candidate distractors then distractors @ [candidate] else distractors) rs'
      else (distractors, rs))"
  by pat_completeness auto
termination
proof (relation "measure (\<lambda>(accept, candidates, distractors, rs). length candidates)")
  show "wf (measure (\<lambda>(accept :: 'a \<Rightarrow> 'a list \<Rightarrow> bool, candidates :: 'a list,
                        distractors :: 'a list, rs :: rng). length candidates))"
    by simp
next
  fix accept :: "'a \<Rightarrow> 'a list \<Rightarrow> bool" and candidates distractors :: "'a list"
    and rs :: rng and index rs' candidate
  assume "candidates \<noteq> [] \<and> length distractors < 3"
    and "index = fst (random_below (length candidates) rs)"
  then have "index < length candidates"
    by (cases rs) simp_all
  then show "((accept, splice1 index candidates,
               if accept candidate distractors then distractors @ [candidate] else distractors, rs'),
              accept, candidates, distractors, rs)
             \<in> measure (\<lambda>(accept, candidates, distractors, rs). length candidates)"
    by (simp add: splice1_def)
qed

declare draw_distractors.simps [simp del]

text \<open>
  The loop \<^verbatim>\<open>for (const x of fallback)\<close> with its \<^verbatim>\<open>break\<close>, shared by
  generateCurrencyOptions and generateLanguageOptions.
\<close>

fun fill_from_fallback :: "string \<Rightarrow> string list \<Rightarrow> string list \<Rightarrow> string list" where
  "fill_from_fallback correct [] distractors = distractors"
| "fill_from_fallback correct (x # fallback) distractors =
     (if length distractors \<ge> 3 then distractors
      else fill_from_fallback correct fallback
             (if x \<noteq> correct \<and> x \<notin> set distractors then distractors @ [x] else distractors))"

subsection \<open>generatePopulationOptions\<close>

text \<open>
  The loop \<^verbatim>\<open>while (distractors.length < 3)\<close> over the fallback multipliers. Nothing in
  it bounds the number of rounds, so it is a partial function: \<open>None\<close> when it runs forever.
\<close>

partial_function (option) population_fallback_loop :: "int \<Rightarrow> int list \<Rightarrow> nat \<Rightarrow> int list option" where
  "population_fallback_loop correctValue distractors multiplierIndex =
     (if length distractors < 3 then
        let multiplier = fallbackMultipliers ! (multiplierIndex mod length fallbackMultipliers);
            candidate = max 100000 (round_product correctValue multiplier)
        in population_fallback_loop correctValue
             (if candidate \<notin> set (correctValue # distractors) then distractors @ [candidate]
              else distractors)
             (multiplierIndex + 1)
      else Some distractors)"

declare population_fallback_loop.simps [code]

definition generatePopulationOptions ::
  "int \<Rightarrow> country list \<Rightarrow> string \<Rightarrow> rng \<Rightarrow> (int list \<times> rng) option" where
  "generatePopulationOptions correctValue pool countryName rs =
     (let candidates = map population
            (filter (\<lambda>item. name item \<noteq> countryName \<and> hasDataForType item ''population'') pool);
          uniqueCandidates = unique_values candidates;
          (distractors, rs') =
            draw_distractors (\<lambda>candidate ds. candidate \<noteq> correctValue) uniqueCandidates [] rs
      in case population_fallback_loop correctValue distractors 0 of
           None \<Rightarrow> None
         | Some distractors' \<Rightarrow> Some (correctValue # distractors', rs'))"

subsection \<open>generateCurrencyOptions and generateLanguageOptions\<close>

definition fallbackCurrencies :: "string list" where
  "fallbackCurrencies = [''Euro'', ''United States dollar'', ''Yen'', ''Pound sterling'', ''Rupee'']"

definition generateCurrencyOptions ::
  "string \<Rightarrow> country list \<Rightarrow> string \<Rightarrow> rng \<Rightarrow> string list \<times> rng" where
  "generateCurrencyOptions correctCurrency pool countryName rs =
     (let candidates = filter (\<lambda>currency. currency \<noteq> correctCurrency)
            (collectUniqueValues pool ''currencies'' countryName);
          (distractors, rs') =
            draw_distractors (\<lambda>candidate ds. candidate \<notin> set ds) candidates [] rs;
          distractors' = fill_from_fallback correctCurrency fallbackCurrencies distractors
      in (take 4 (correctCurrency # distractors'), rs'))"

definition fallbackLanguages :: "string list" where
  "fallbackLanguages =
     [''English'', ''Spanish'', ''French'', ''Arabic'', ''Hindi'', ''Portuguese'', ''Russian'',
      ''Chinese'']"

definition generateLanguageOptions ::
  "string \<Rightarrow> country list \<Rightarrow> string \<Rightarrow> rng \<Rightarrow> string list \<times> rng" where
  "generateLanguageOptions correctLanguage pool countryName rs =
     (let candidates = filter (\<lambda>language. language \<noteq> correctLanguage)
            (collectUniqueValues pool ''languages'' countryName);
          (distractors, rs') =
            draw_distractors (\<lambda>candidate ds. candidate \<notin> set ds) candidates [] rs;
          distractors' = fill_from_fallback correctLanguage fallbackLanguages distractors
      in (take 4 (correctLanguage # distractors'), rs'))"

subsection \<open>Questions\<close>

datatype answer_value = NumberValue int | StringValue string

record question =
  qtype :: string
  country :: string
  options :: "answer_value list"
  correctIndex :: int

text \<open>
  \<^verbatim>\<open>optionLabels.filter((label, index, array) => Boolean(label) && array.indexOf(label) === index)\<close>
\<close>

definition uniqueLabels :: "string list \<Rightarrow> string list" where
  "uniqueLabels optionLabels =
     map (\<lambda>index. optionLabels ! index)
       (filter (\<lambda>index. optionLabels ! index \<noteq> [] \<and>
                         indexOf optionLabels (optionLabels ! index) = int index)
          [0..<length optionLabels])"

definition buildPopulationQuestion ::
  "country \<Rightarrow> country list \<Rightarrow> rng \<Rightarrow> (question option \<times> rng) option" where
  "buildPopulationQuestion c pool rs =
     (if \<not> hasDataForType c ''population'' then Some (None, rs)
      else
        let correctValue = population c
        in case generatePopulationOptions correctValue pool (name c) rs of
             None \<Rightarrow> None
           | Some (rawOptions, rs1) \<Rightarrow>
               let uniqueOptions = take 4 (unique_values rawOptions)
               in if correctValue \<notin> set uniqueOptions \<or> length uniqueOptions < 4
                  then Some (None, rs1)
                  else
                    let optionObjects = map NumberValue uniqueOptions;
                        (shuffledOptions, rs2) = shuffleArray optionObjects rs1;
                        correctIdx = findIndex (\<lambda>opt. opt = NumberValue correctValue) shuffledOptions
                    in if correctIdx = - 1 then Some (None, rs2)
                       else Some (Some \<lparr>qtype = ''population'', country = name c,
                                        options = shuffledOptions, correctIndex = correctIdx\<rparr>, rs2))"

definition buildCurrencyQuestion :: "country \<Rightarrow> country list \<Rightarrow> rng \<Rightarrow> question option \<times> rng" where
  "buildCurrencyQuestion c pool rs =
     (if \<not> hasDataForType c ''currency'' then (None, rs)
      else
        let correctCurrency = hd (currencies c);
            (optionLabels, rs1) = generateCurrencyOptions correctCurrency pool (name c) rs;
            uniqueOptions = uniqueLabels optionLabels
        in if correctCurrency \<notin> set uniqueOptions \<or> length uniqueOptions < 4 then (None, rs1)
           else
             let optionObjects = map StringValue (take 4 uniqueOptions);
                 (shuffledOptions, rs2) = shuffleArray optionObjects rs1;
                 correctIdx = findIndex (\<lambda>opt. opt = StringValue correctCurrency) shuffledOptions
             in if correctIdx = - 1 then (None, rs2)
                else (Some \<lparr>qtype = ''currency'', country = name c,
                            options = shuffledOptions, correctIndex = correctIdx\<rparr>, rs2))"

definition buildLanguagesQuestion :: "country \<Rightarrow> country list \<Rightarrow> rng \<Rightarrow> question option \<times> rng" where
  "buildLanguagesQuestion c pool rs =
     (if \<not> hasDataForType c ''languages'' then (None, rs)
      else
        let correctLanguage = hd (languages c);
            (optionLabels, rs1) = generateLanguageOptions correctLanguage pool (name c) rs;
            uniqueOptions = uniqueLabels optionLabels
        in if correctLanguage \<notin> set uniqueOptions \<or> length uniqueOptions < 4 then (None, rs1)
           else
             let optionObjects = map StringValue (take 4 uniqueOptions);
                 (shuffledOptions, rs2) = shuffleArray optionObjects rs1;
                 correctIdx = findIndex (\<lambda>opt. opt = StringValue correctLanguage) shuffledOptions
             in if correctIdx = - 1 then (None, rs2)
                else (Some \<lparr>qtype = ''languages'', country = name c,
                            options = shuffledOptions, correctIndex = correctIdx\<rparr>, rs2))"

definition buildQuestionForType ::
  "string \<Rightarrow> country \<Rightarrow> country list \<Rightarrow> rng \<Rightarrow> (question option \<times> rng) option" where
  "buildQuestionForType type c pool rs =
     (if type = ''population'' then buildPopulationQuestion c pool rs
      else if type = ''currency'' then Some (buildCurrencyQuestion c pool rs)
      else if type = ''languages'' then Some (buildLanguagesQuestion c pool rs)
      else Some (None, rs))"

subsection \<open>generateQuestionSet\<close>

text \<open>
  The first loop (lines 186 to 192), over the rest of \<^verbatim>\<open>shuffledAvailable\<close>, with the
  loop's variables \<^verbatim>\<open>questions\<close> and \<^verbatim>\<open>tried\<close>.
\<close>

fun first_loop ::
  "string \<Rightarrow> country list \<Rightarrow> nat \<Rightarrow> country list \<Rightarrow> question list \<Rightarrow> string set \<Rightarrow> rng \<Rightarrow>
   (question list \<times> string set \<times> rng) option" where
  "first_loop type optionPool desiredCount [] questions tried rs = Some (questions, tried, rs)"
| "first_loop type optionPool desiredCount (c # rest) questions tried rs =
     (if length questions < desiredCount then
        if name c \<in> tried then first_loop type optionPool desiredCount rest questions tried rs
        else
          (case buildQuestionForType type c optionPool rs of
             None \<Rightarrow> None
           | Some (None, rs') \<Rightarrow>
               first_loop type optionPool desiredCount rest questions (insert (name c) tried) rs'
           | Some (Some q, rs') \<Rightarrow>
               first_loop type optionPool desiredCount rest (questions @ [q])
                 (insert (name c) tried) rs')
      else Some (questions, tried, rs))"

text \<open>The second loop (lines 195 to 203), over the rest of \<^verbatim>\<open>fallbackPool\<close>.\<close>

fun fallback_loop ::
  "string \<Rightarrow> country list \<Rightarrow> nat \<Rightarrow> country list \<Rightarrow> question list \<Rightarrow> string set \<Rightarrow> rng \<Rightarrow>
   (question list \<times> string set \<times> rng) option" where
  "fallback_loop type optionPool desiredCount [] questions tried rs = Some (questions, tried, rs)"
| "fallback_loop type optionPool desiredCount (c # rest) questions tried rs =
     (if length questions < desiredCount then
        if \<not> hasDataForType c type
        then fallback_loop type optionPool desiredCount rest questions tried rs
        else
          (case buildQuestionForType type c optionPool rs of
             None \<Rightarrow> None
           | Some (None, rs') \<Rightarrow> fallback_loop type optionPool desiredCount rest questions tried rs'
           | Some (Some q, rs') \<Rightarrow>
               fallback_loop type optionPool desiredCount rest (questions @ [q])
                 (insert (name c) tried) rs')
      else Some (questions, tried, rs))"

definition generateQuestionSet ::
  "string \<Rightarrow> nat \<Rightarrow> quiz_engine \<Rightarrow> rng \<Rightarrow> (question list \<times> rng) option" where
  "generateQuestionSet type desiredCount q rs =
     (let (availableCountries, rs1) = getCountriesForType type desiredCount q rs
      in if availableCountries = [] then Some ([], rs1)
         else
           let (shuffledAvailable, rs2) = shuffleArray availableCountries rs1;
               optionPool = uniqueByName (availableCountries @ countries q)
           in case first_loop type optionPool desiredCount shuffledAvailable [] {} rs2 of
                None \<Rightarrow> None
              | Some (questions, tried, rs3) \<Rightarrow>
                  if length questions < desiredCount then
                    let (shuffled, rs4) = shuffleArray (countries q) rs3;
                        fallbackPool = filter (\<lambda>c. name c \<notin> tried) shuffled
                    in case fallback_loop type optionPool desiredCount fallbackPool questions tried rs4 of
                         None \<Rightarrow> None
                       | Some (questions', tried', rs5) \<Rightarrow> Some (take desiredCount questions', rs5)
                  else Some (take desiredCount questions, rs3))"

subsection \<open>Real candidates and fallback entries\<close>

text \<open>
  The local variable \<^verbatim>\<open>candidates\<close> of generateCurrencyOptions and
  generateLanguageOptions: the values collected from the pool, without the correct one.
\<close>

abbreviation (input) real_candidates :: "country list \<Rightarrow> string \<Rightarrow> string \<Rightarrow> string \<Rightarrow> string list" where
  "real_candidates pool key countryName correct \<equiv>
     filter (\<lambda>v. v \<noteq> correct) (collectUniqueValues pool key countryName)"

text \<open>
  What the properties say of the four labels \<open>opts\<close>, given the real candidates and the
  fallback list: the correct label comes first; as many distractors as there are real
  candidates, up to three, are real candidates; the rest are the first entries of the
  fallback list that are neither the correct label nor one of those candidates.
\<close>

abbreviation (input) real_then_fallback :: "string \<Rightarrow> string list \<Rightarrow> string list \<Rightarrow> string list \<Rightarrow> bool" where
  "real_then_fallback correct real fallback opts \<equiv>
     length opts = 4 \<and> distinct opts \<and> hd opts = correct
     \<and> set (take (min 3 (length real)) (tl opts)) \<subseteq> set real
     \<and> drop (min 3 (length real)) (tl opts) =
         take (3 - min 3 (length real))
           (filter (\<lambda>x. x \<noteq> correct \<and> x \<notin> set (take (min 3 (length real)) (tl opts))) fallback)"

subsection \<open>Well-formed questions\<close>

text \<open>
  What the properties say of a question \<open>qu\<close> built for the country \<open>c\<close>: its fields, its
  four distinct options, and the one option, at \<open>correctIndex\<close>, that is the answer.
\<close>

abbreviation (input) question_about :: "string \<Rightarrow> country \<Rightarrow> answer_value \<Rightarrow> question \<Rightarrow> bool" where
  "question_about type c answer qu \<equiv>
     country qu = name c \<and> qtype qu = type \<and> hasDataForType c type
     \<and> length (options qu) = 4 \<and> distinct (options qu)
     \<and> length (filter (\<lambda>v. v = answer) (options qu)) = 1
     \<and> 0 \<le> correctIndex qu \<and> correctIndex qu < 4
     \<and> options qu ! nat (correctIndex qu) = answer"

text \<open>
  The true answer of a country: its population, its first currency or its first language.
\<close>

abbreviation (input) answer_of :: "string \<Rightarrow> country \<Rightarrow> answer_value" where
  "answer_of type c \<equiv>
     (if type = ''population'' then NumberValue (population c)
      else if type = ''currency'' then StringValue (hd (currencies c))
      else StringValue (hd (languages c)))"

subsection \<open>Sample data\<close>

text \<open>
  The object literal of loadFromRestCountries, for the fields of the model: the popularity of
  a loaded country is its population.
\<close>

definition loaded_country :: "string \<Rightarrow> int \<Rightarrow> string list \<Rightarrow> string list \<Rightarrow> country" where
  "loaded_country n p ls cs =
     \<lparr>name = n, population = p, popularity = p, languages = ls, currencies = cs\<rparr>"

definition france :: country where
  "france = loaded_country ''France'' 67000000 [''French''] [''Euro'']"

definition japan :: country where
  "japan = loaded_country ''Japan'' 125000000 [''Japanese''] [''Japanese yen'']"

definition brazil :: country where
  "brazil = loaded_country ''Brazil'' 212000000 [''Portuguese''] [''Brazilian real'']"

definition vatican :: country where
  "vatican = loaded_country ''Vatican City'' 1000 [''Italian'', ''Latin''] [''Euro'']"

definition three_countries :: quiz_engine where
  "three_countries = new_QuizEngine\<lparr>countries := [france, japan, brazil]\<rparr>"

definition vatican_engine :: quiz_engine where
  "vatican_engine = new_QuizEngine\<lparr>countries := [vatican], countryPool := [vatican]\<rparr>"

definition three_pooled :: quiz_engine where
  "three_pooled = fst (populateCountryPool three_countries [2, 0])"

text \<open>
  A loaded list of twelve countries, in falling order of population. Two of the first ten
  have no currency, and the last two have the same name.
\<close>

definition twelve_countries :: "country list" where
  "twelve_countries =
     [loaded_country ''India'' 1380000000 [''Hindi'', ''English''] [''Indian rupee''],
      loaded_country ''Brazil'' 212000000 [''Portuguese''] [''Brazilian real''],
      loaded_country ''Japan'' 125000000 [''Japanese''] [''Japanese yen''],
      loaded_country ''Egypt'' 102000000 [''Arabic''] [''Egyptian pound''],
      loaded_country ''France'' 67000000 [''French''] [''Euro''],
      loaded_country ''Kenya'' 53000000 [''English'', ''Swahili''] [''Kenyan shilling''],
      loaded_country ''Peru'' 32000000 [''Spanish''] [''Peruvian sol''],
      loaded_country ''Norway'' 5300000 [''Norwegian''] [''Norwegian krone''],
      loaded_country ''Palestine'' 4800000 [''Arabic''] [],
      loaded_country ''Antarctica'' 1000 [] [],
      loaded_country ''Saint Martin'' 900 [''French''] [''Euro''],
      loaded_country ''Saint Martin'' 800 [''Dutch''] [''Netherlands Antillean guilder'']]"

definition loaded_engine :: quiz_engine where
  "loaded_engine = new_QuizEngine\<lparr>countries := twelve_countries\<rparr>"

definition draws :: rng where
  "draws =
     [5, 2, 6, 10, 0, 1, 8, 1, 5, 9, 0, 8, 3, 0, 1, 6, 6, 1, 3, 1, 8, 6, 0, 9,
      1, 3, 10, 10, 9, 0, 9, 9, 6, 0, 3, 0, 8, 2, 4, 6, 2, 8, 1, 9, 4, 8, 10, 2,
      1, 9, 9, 10, 3, 5, 1, 8, 11, 1, 9, 0, 9, 3, 7, 10, 8, 6, 5, 7, 9, 7, 5, 4,
      3, 2, 11, 3, 1, 9, 4, 8, 7, 5, 11, 7, 4, 9, 1, 1, 8, 6, 2, 5, 2, 7, 6, 0]"

definition pooled_engine :: quiz_engine where
  "pooled_engine = fst (populateCountryPool loaded_engine [11, 10, 9, 8, 7, 6, 5, 4, 3, 2, 1])"

section \<open>Properties\<close>

subsection \<open>shuffleArray\<close>

lemma random_below_bound: "0 < n \<Longrightarrow> fst (random_below n rs) < n"
  by (cases rs) simp_all

lemma shuffle_loop_mset_length:
  "k < length xs \<or> k = 0 \<Longrightarrow>
   mset (fst (shuffle_loop k xs rs)) = mset xs \<and> length (fst (shuffle_loop k xs rs)) = length xs"
proof (induction k arbitrary: xs rs)
  case 0
  then show ?case by simp
next
  case (Suc k)
  obtain j rs' where d: "random_below (Suc k + 1) rs = (j, rs')"
    by (cases "random_below (Suc k + 1) rs")
  have "fst (random_below (Suc k + 1) rs) < Suc k + 1"
    by (rule random_below_bound) simp
  with d Suc.prems have j: "j < length xs" and k: "Suc k < length xs"
    by auto
  let ?ys = "xs[Suc k := xs ! j, j := xs ! Suc k]"
  have "mset ?ys = mset xs" using j k by (simp add: mset_swap)
  moreover have "length ?ys = length xs" by simp
  moreover have "k < length ?ys" using k by simp
  ultimately show ?case using Suc.IH [of ?ys rs'] d by simp
qed

lemma shuffleArray_mset: "mset (fst (shuffleArray xs rs)) = mset xs"
  unfolding shuffleArray_def
  by (cases xs) (simp_all add: shuffle_loop_mset_length)

lemma shuffleArray_length: "length (fst (shuffleArray xs rs)) = length xs"
  unfolding shuffleArray_def
  by (cases xs) (simp_all add: shuffle_loop_mset_length)

lemma shuffleArray_set: "set (fst (shuffleArray xs rs)) = set xs"
  by (rule mset_eq_setD) (rule shuffleArray_mset)

lemma shuffle_loop_store_pure:
  "p < length st \<Longrightarrow>
   shuffle_loop_store k p st rs =
     (st[p := fst (shuffle_loop k (st ! p) rs)], snd (shuffle_loop k (st ! p) rs))"
proof (induction k arbitrary: st rs)
  case 0
  then show ?case by simp
next
  case (Suc k)
  obtain j rs' where d: "random_below (Suc k + 1) rs = (j, rs')"
    by (cases "random_below (Suc k + 1) rs")
  let ?a = "st ! p"
  let ?st = "st[p := ?a[Suc k := ?a ! j, j := ?a ! Suc k]]"
  have "p < length ?st" using Suc.prems by simp
  from Suc.IH [OF this, of rs'] show ?case
    using d Suc.prems by (simp add: Let_def)
qed

text \<open>
  C8: shuffleArray returns a permutation of its argument and leaves the argument array as it
  was. In the store, the result is a new array with the same length and the same multiset of
  elements as the argument; every array that was in the store before the call, the argument
  among them, is unchanged; and the new array is the one the pure function computes.
\<close>

theorem shuffleArray_is_permutation_of_copy:
  assumes "array < length st"
    and "shuffleArray_store st array rs = (shuffled, st', rs')"
  shows "mset (st' ! shuffled) = mset (st ! array)
       \<and> length (st' ! shuffled) = length (st ! array)
       \<and> (\<forall>a < length st. st' ! a = st ! a)
       \<and> shuffled \<noteq> array
       \<and> (st' ! shuffled, rs') = shuffleArray (st ! array) rs"
proof -
  let ?st1 = "st @ [st ! array]"
  have p: "length st < length ?st1" by simp
  have c: "?st1 ! length st = st ! array" by simp
  have "shuffle_loop_store (length (st ! array) - 1) (length st) ?st1 rs =
          (?st1[length st := fst (shuffleArray (st ! array) rs)], snd (shuffleArray (st ! array) rs))"
    using shuffle_loop_store_pure [OF p, of "length (st ! array) - 1" rs]
    by (simp only: c shuffleArray_def)
  with assms(2) have r: "shuffled = length st"
    "st' = ?st1[length st := fst (shuffleArray (st ! array) rs)]"
    "rs' = snd (shuffleArray (st ! array) rs)"
    by (auto simp add: shuffleArray_store_def Let_def)
  have n: "st' ! shuffled = fst (shuffleArray (st ! array) rs)"
    using r by simp
  have old: "\<forall>a < length st. st' ! a = st ! a"
    using r by (simp add: nth_append)
  show ?thesis
    using n old r(1,3) assms(1) by (simp add: shuffleArray_mset shuffleArray_length)
qed

theorem shuffleArray_is_permutation_of_copy_witness:
  "shuffleArray_store [[10, 20, 30, 40::nat]] 0 [1, 5, 0] =
     (1, [[10, 20, 30, 40], [40, 10, 30, 20]], [])
   \<and> mset [40, 10, 30, 20::nat] = mset [10, 20, 30, 40]"
proof -
  have e: "shuffleArray_store [[10, 20, 30, 40::nat]] 0 [1, 5, 0] =
             (1, [[10, 20, 30, 40], [40, 10, 30, 20]], [])"
    by code_simp
  have "0 < length [[10, 20, 30, 40::nat]]" by simp
  from shuffleArray_is_permutation_of_copy [OF this e] e show ?thesis by simp
qed

subsection \<open>populateCountryPool\<close>

lemma mset_take_subseteq: "mset (take n xs) \<subseteq># mset xs"
proof -
  have "mset (take n xs) + mset (drop n xs) = mset xs"
    by (metis append_take_drop_id mset_append)
  then show ?thesis
    by (metis mset_subset_eq_add_left)
qed

lemma candidateList_sub: "mset (fst (candidateList q rs)) \<subseteq># mset (countries q)"
proof -
  have a: "mset (take n (sort_key f (countries q))) \<subseteq># mset (countries q)" for n and f :: "country \<Rightarrow> int"
    using mset_take_subseteq [of n "sort_key f (countries q)"] by simp
  obtain sh rs' where s: "shuffleArray (countries q) rs = (sh, rs')"
    by (cases "shuffleArray (countries q) rs")
  have b: "mset (take n sh) \<subseteq># mset (countries q)" for n
    using mset_take_subseteq [of n sh] shuffleArray_mset [of "countries q" rs] s
    by simp
  show ?thesis
    unfolding candidateList_def Let_def
    by (simp add: s a b split: property.splits)
qed

text \<open>
  C5: when the loaded country list is not empty, populateCountryPool sets countryPool to a
  sample without replacement of at most REST_COUNTRIES_SAMPLE_SIZE entries of the loaded list:
  the pool is a sub-multiset of the list (no element of the list is taken more often than it
  occurs there), so every pool entry occurs in the list.
\<close>

theorem populateCountryPool_samples_without_replacement:
  assumes "countries q \<noteq> []"
  shows "mset (countryPool (fst (populateCountryPool q rs))) \<subseteq># mset (countries q)
       \<and> length (countryPool (fst (populateCountryPool q rs))) \<le> REST_COUNTRIES_SAMPLE_SIZE
       \<and> set (countryPool (fst (populateCountryPool q rs))) \<subseteq> set (countries q)"
proof -
  obtain cands rs1 where c: "candidateList q rs = (cands, rs1)"
    by (cases "candidateList q rs")
  obtain sh rs2 where s: "shuffleArray cands rs1 = (sh, rs2)"
    by (cases "shuffleArray cands rs1")
  have pool: "countryPool (fst (populateCountryPool q rs)) = take REST_COUNTRIES_SAMPLE_SIZE sh"
    using assms c s by (simp add: populateCountryPool_def dispatchEvent_def Let_def)
  have "mset sh = mset cands"
    using shuffleArray_mset [of cands rs1] s by simp
  moreover have "mset cands \<subseteq># mset (countries q)"
    using candidateList_sub [of q rs] c by simp
  ultimately have sub: "mset (take REST_COUNTRIES_SAMPLE_SIZE sh) \<subseteq># mset (countries q)"
    using mset_take_subseteq [of REST_COUNTRIES_SAMPLE_SIZE sh] by (metis subset_mset.order_trans)
  have "set (take REST_COUNTRIES_SAMPLE_SIZE sh) \<subseteq> set (countries q)"
    using set_mset_mono [OF sub] by simp
  with sub pool show ?thesis by simp
qed

theorem populateCountryPool_samples_without_replacement_witness:
  "countries three_countries \<noteq> []
   \<and> countryPool (fst (populateCountryPool three_countries [2, 0])) = [japan, brazil, france]
   \<and> mset (countryPool (fst (populateCountryPool three_countries [2, 0])))
         \<subseteq># mset (countries three_countries)"
proof -
  have n: "countries three_countries \<noteq> []"
    by (simp add: three_countries_def)
  have e: "countryPool (fst (populateCountryPool three_countries [2, 0])) = [japan, brazil, france]"
    by code_simp
  from populateCountryPool_samples_without_replacement [OF n, of "[2, 0]"] n e show ?thesis
    by blast
qed

lemma sorted_take_drop_keys:
  assumes "sorted (map f ys)"
  shows "\<forall>x \<in> set (take k ys). \<forall>y \<in> set (drop k ys). f x \<le> f y"
proof -
  have "sorted (map f (take k ys) @ map f (drop k ys))"
    using assms by (metis append_take_drop_id map_append)
  then show ?thesis
    by (auto simp add: sorted_append)
qed

text \<open>
  C6: populateCountryPool draws its candidate list per difficulty tier. With difficulty easy
  the candidates are the (up to) 30 countries of highest popularity, in falling order of
  popularity: the first 30 of the loaded list sorted by falling popularity, and no country
  left out is more popular than a candidate. With difficulty medium or hard the candidates
  are the first \<open>min 100 n\<close> or \<open>min 200 n\<close> entries of a shuffle of the \<open>n\<close> loaded
  countries. The pool is then the first REST_COUNTRIES_SAMPLE_SIZE entries of a shuffle of the
  candidates.
\<close>

theorem candidateList_per_difficulty:
  "(difficulty q = ''easy'' \<longrightarrow>
      (\<exists>rest. candidateList q rs = (take 30 (sort_key (\<lambda>c. - popularity c) (countries q)), rs)
        \<and> length (fst (candidateList q rs)) = min 30 (length (countries q))
        \<and> sorted (map (\<lambda>c. - popularity c) (fst (candidateList q rs)))
        \<and> mset (fst (candidateList q rs)) + mset rest = mset (countries q)
        \<and> (\<forall>c \<in> set (fst (candidateList q rs)). \<forall>d \<in> set rest. popularity d \<le> popularity c)))
   \<and> (difficulty q = ''medium'' \<longrightarrow>
        fst (candidateList q rs) =
          take (min 100 (length (countries q))) (fst (shuffleArray (countries q) rs))
        \<and> length (fst (candidateList q rs)) = min 100 (length (countries q))
        \<and> mset (fst (candidateList q rs)) \<subseteq># mset (countries q))
   \<and> (difficulty q = ''hard'' \<longrightarrow>
        fst (candidateList q rs) =
          take (min 200 (length (countries q))) (fst (shuffleArray (countries q) rs))
        \<and> length (fst (candidateList q rs)) = min 200 (length (countries q))
        \<and> mset (fst (candidateList q rs)) \<subseteq># mset (countries q))
   \<and> (countries q \<noteq> [] \<longrightarrow>
        countryPool (fst (populateCountryPool q rs)) =
          take REST_COUNTRIES_SAMPLE_SIZE
            (fst (shuffleArray (fst (candidateList q rs)) (snd (candidateList q rs)))))"
proof -
  let ?key = "\<lambda>c. - popularity c"
  let ?sorted = "sort_key ?key (countries q)"
  have easy: "difficulty q = ''easy'' \<Longrightarrow> candidateList q rs = (take 30 ?sorted, rs)"
    by (simp add: candidateList_def difficultySettings_def easy_setting_def)
  have s: "sorted (map ?key (take 30 ?sorted))"
    by (metis sorted_sort_key take_map sorted_wrt_take)
  have m: "mset (take 30 ?sorted) + mset (drop 30 ?sorted) = mset (countries q)"
    by (metis append_take_drop_id mset_append mset_sort)
  have o: "\<forall>c \<in> set (take 30 ?sorted). \<forall>d \<in> set (drop 30 ?sorted). popularity d \<le> popularity c"
    using sorted_take_drop_keys [of ?key ?sorted 30] by simp
  have e: "difficulty q = ''easy'' \<longrightarrow>
      (\<exists>rest. candidateList q rs = (take 30 ?sorted, rs)
        \<and> length (fst (candidateList q rs)) = min 30 (length (countries q))
        \<and> sorted (map ?key (fst (candidateList q rs)))
        \<and> mset (fst (candidateList q rs)) + mset rest = mset (countries q)
        \<and> (\<forall>c \<in> set (fst (candidateList q rs)). \<forall>d \<in> set rest. popularity d \<le> popularity c))"
  proof
    assume d: "difficulty q = ''easy''"
    show "\<exists>rest. candidateList q rs = (take 30 ?sorted, rs)
        \<and> length (fst (candidateList q rs)) = min 30 (length (countries q))
        \<and> sorted (map ?key (fst (candidateList q rs)))
        \<and> mset (fst (candidateList q rs)) + mset rest = mset (countries q)
        \<and> (\<forall>c \<in> set (fst (candidateList q rs)). \<forall>d \<in> set rest. popularity d \<le> popularity c)"
      apply (rule exI [of _ "drop 30 ?sorted"])
      using easy [OF d] s m o by (simp add: min.commute)
  qed
  obtain sh rs' where sh: "shuffleArray (countries q) rs = (sh, rs')"
    by (cases "shuffleArray (countries q) rs")
  have l: "length sh = length (countries q)"
    using shuffleArray_length [of "countries q" rs] sh by simp
  have sub: "mset (take n sh) \<subseteq># mset (countries q)" for n
    using mset_take_subseteq [of n sh] shuffleArray_mset [of "countries q" rs] sh by simp
  have med: "difficulty q = ''medium'' \<longrightarrow>
        fst (candidateList q rs) =
          take (min 100 (length (countries q))) (fst (shuffleArray (countries q) rs))
        \<and> length (fst (candidateList q rs)) = min 100 (length (countries q))
        \<and> mset (fst (candidateList q rs)) \<subseteq># mset (countries q)"
    by (simp add: candidateList_def difficultySettings_def sh l sub)
  have hard: "difficulty q = ''hard'' \<longrightarrow>
        fst (candidateList q rs) =
          take (min 200 (length (countries q))) (fst (shuffleArray (countries q) rs))
        \<and> length (fst (candidateList q rs)) = min 200 (length (countries q))
        \<and> mset (fst (candidateList q rs)) \<subseteq># mset (countries q)"
    by (simp add: candidateList_def difficultySettings_def sh l sub)
  have p: "countries q \<noteq> [] \<longrightarrow>
        countryPool (fst (populateCountryPool q rs)) =
          take REST_COUNTRIES_SAMPLE_SIZE
            (fst (shuffleArray (fst (candidateList q rs)) (snd (candidateList q rs))))"
    by (simp add: populateCountryPool_def dispatchEvent_def Let_def split: prod.splits)
  from e med hard p show ?thesis
    by (intro conjI)
qed

theorem candidateList_per_difficulty_witness:
  "difficulty three_countries = ''easy''
   \<and> candidateList three_countries [] =
       (take 30 (sort_key (\<lambda>c. - popularity c) (countries three_countries)), [])
   \<and> take 30 (sort_key (\<lambda>c. - popularity c) (countries three_countries)) = [brazil, japan, france]
   \<and> difficulty (three_countries\<lparr>difficulty := ''medium''\<rparr>) = ''medium''
   \<and> length (fst (candidateList (three_countries\<lparr>difficulty := ''medium''\<rparr>) [1, 1])) =
       min 100 (length (countries (three_countries\<lparr>difficulty := ''medium''\<rparr>)))
   \<and> difficulty (three_countries\<lparr>difficulty := ''hard''\<rparr>) = ''hard''
   \<and> length (fst (candidateList (three_countries\<lparr>difficulty := ''hard''\<rparr>) [1, 1])) =
       min 200 (length (countries (three_countries\<lparr>difficulty := ''hard''\<rparr>)))"
proof -
  have d: "difficulty three_countries = ''easy''"
    "difficulty (three_countries\<lparr>difficulty := ''medium''\<rparr>) = ''medium''"
    "difficulty (three_countries\<lparr>difficulty := ''hard''\<rparr>) = ''hard''"
    by (simp_all add: three_countries_def new_QuizEngine_def)
  have s: "take 30 (sort_key (\<lambda>c. - popularity c) (countries three_countries)) =
           [brazil, japan, france]"
    by (simp add: three_countries_def france_def japan_def brazil_def loaded_country_def)
  show ?thesis
    using candidateList_per_difficulty [of three_countries "[]"]
      candidateList_per_difficulty [of "three_countries\<lparr>difficulty := ''medium''\<rparr>" "[1, 1]"]
      candidateList_per_difficulty [of "three_countries\<lparr>difficulty := ''hard''\<rparr>" "[1, 1]"]
      d s
    by blast
qed

text \<open>
  C7: for every type argument other than population, currency and languages,
  generateQuestionSet returns, and returns the empty list.
\<close>

theorem generateQuestionSet_unsupported_type:
  assumes "type \<noteq> ''population''" and "type \<noteq> ''currency''" and "type \<noteq> ''languages''"
  shows "\<exists>rs'. generateQuestionSet type desiredCount q rs = Some ([], rs')"
proof -
  have h: "\<And>c. \<not> hasDataForType c type"
    using assms by (simp add: hasDataForType_def)
  have "fst (getCountriesForType type desiredCount q rs) = []"
    by (simp add: getCountriesForType_def h uniqueByName_def Let_def split: prod.splits)
  then show ?thesis
    by (cases "getCountriesForType type desiredCount q rs") (simp add: generateQuestionSet_def)
qed

theorem generateQuestionSet_unsupported_type_witness:
  "''capital'' \<noteq> ''population'' \<and> ''capital'' \<noteq> ''currency'' \<and> ''capital'' \<noteq> ''languages''
   \<and> (\<exists>rs'. generateQuestionSet ''capital'' 10 three_countries [3, 1] = Some ([], rs'))"
  using generateQuestionSet_unsupported_type [of "''capital''" 10 three_countries "[3, 1]"]
  by simp

subsection \<open>The difficulty\<close>

lemma setDifficulty_absent:
  "difficultySettings level = Absent \<Longrightarrow> setDifficulty (JsString level) reload q rs = (q, rs)"
  "setDifficulty (JsString []) reload q rs = (q, rs)"
  "setDifficulty JsNull reload q rs = (q, rs)"
  "setDifficulty JsUndefined reload q rs = (q, rs)"
  by simp_all

lemma setDifficulty_inherited:
  "level \<in> set object_prototype_keys \<Longrightarrow>
   setDifficulty (JsString level) False q rs =
     (q\<lparr>difficulty := level, dispatched := dispatched q @ [DifficultyChanged level]\<rparr>, rs)"
  by (auto simp add: difficultySettings_def object_prototype_keys_def dispatchEvent_def)

text \<open>
  C9: setDifficulty with a level outside easy, medium and hard is meant to change nothing.
  The guard reads the level as a property of the settings object, so the level
  \<^verbatim>\<open>'toString'\<close>, found on the prototype, passes it: the difficulty becomes
  \<^verbatim>\<open>'toString'\<close> and a difficulty-changed event is dispatched; with \<^verbatim>\<open>reload\<close>
  the pool is rebuilt as well, to the empty pool, and a pool-updated event is dispatched.
\<close>

theorem setDifficulty_toString:
  "setDifficulty (JsString ''toString'') False new_QuizEngine [] =
     (new_QuizEngine\<lparr>difficulty := ''toString'', dispatched := [DifficultyChanged ''toString'']\<rparr>, [])
   \<and> countryPool vatican_engine = [vatican]
   \<and> fst (setDifficulty (JsString ''toString'') True vatican_engine []) =
       vatican_engine\<lparr>countryPool := [], difficulty := ''toString'',
         dispatched := [PoolUpdated [], DifficultyChanged ''toString'']\<rparr>"
  by (simp add: difficultySettings_def object_prototype_keys_def dispatchEvent_def
      new_QuizEngine_def vatican_engine_def populateCountryPool_def candidateList_def
      shuffleArray_def)

text \<open>
  C10: the difficulty is meant to be one of easy, medium and hard at all times. Starting from
  the constructor's engine, one call of setDifficulty with the level \<^verbatim>\<open>'constructor'\<close>
  leaves a difficulty that is none of the three.
\<close>

theorem setDifficulty_constructor:
  "difficulty new_QuizEngine = ''easy''
   \<and> difficulty (fst (setDifficulty (JsString ''constructor'') False new_QuizEngine [])) =
       ''constructor''
   \<and> ''constructor'' \<notin> set difficultyOrder"
  by (simp add: difficultySettings_def object_prototype_keys_def dispatchEvent_def
      new_QuizEngine_def difficultyOrder_def)

text \<open>
  What holds of the difficulty: a level that is not a property of the settings object leaves
  the engine as it is, and the controller's helpers move one step along easy, medium, hard.
\<close>

lemma indexOf_difficultyOrder:
  "indexOf difficultyOrder d =
     (if d = ''easy'' then 0 else if d = ''medium'' then 1 else if d = ''hard'' then 2 else - 1)"
  by (simp add: indexOf_def difficultyOrder_def)

lemma setDifficulty_own_no_reload:
  "level \<in> {''easy'', ''medium'', ''hard''} \<Longrightarrow>
   setDifficulty (JsString level) False q rs =
     (q\<lparr>difficulty := level, dispatched := dispatched q @ [DifficultyChanged level]\<rparr>, rs)"
  by (auto simp add: difficultySettings_def dispatchEvent_def)

lemma upgradeDifficulty_cases:
  "upgradeDifficulty q rs =
     (if difficulty q = ''easy'' then setDifficulty (JsString ''medium'') False q rs
      else if difficulty q = ''medium'' then setDifficulty (JsString ''hard'') False q rs
      else (q, rs))"
proof -
  have n: "difficultyOrder ! nat (0 + 1) = ''medium''" "difficultyOrder ! nat (1 + 1) = ''hard''"
    by (simp_all add: difficultyOrder_def)
  have l: "int (length difficultyOrder) - 1 = 2"
    by (simp add: difficultyOrder_def)
  show ?thesis
    unfolding upgradeDifficulty_def getDifficulty_def Let_def indexOf_difficultyOrder l
    using n by (simp del: setDifficulty.simps)
qed

lemma downgradeDifficulty_cases:
  "downgradeDifficulty q rs =
     (if difficulty q = ''hard'' then setDifficulty (JsString ''medium'') False q rs
      else if difficulty q = ''medium'' then setDifficulty (JsString ''easy'') False q rs
      else (q, rs))"
proof -
  have n: "difficultyOrder ! nat (1 - 1) = ''easy''" "difficultyOrder ! nat (2 - 1) = ''medium''"
    by (simp_all add: difficultyOrder_def)
  show ?thesis
    unfolding downgradeDifficulty_def getDifficulty_def Let_def indexOf_difficultyOrder
    using n by (simp del: setDifficulty.simps)
qed

lemma upgradeDifficulty_steps:
  "difficulty (fst (upgradeDifficulty q rs)) =
     (if difficulty q = ''easy'' then ''medium''
      else if difficulty q = ''medium'' then ''hard'' else difficulty q)"
  by (simp add: upgradeDifficulty_cases setDifficulty_own_no_reload del: setDifficulty.simps)

lemma downgradeDifficulty_steps:
  "difficulty (fst (downgradeDifficulty q rs)) =
     (if difficulty q = ''hard'' then ''medium''
      else if difficulty q = ''medium'' then ''easy'' else difficulty q)"
  by (simp add: downgradeDifficulty_cases setDifficulty_own_no_reload del: setDifficulty.simps)

subsection \<open>Currency and language options\<close>

lemma set_splice1: "set (splice1 i xs) \<subseteq> set xs"
  unfolding splice1_def by (auto dest: in_set_takeD in_set_dropD)

lemma collect_items_inv:
  assumes "collect_items items (seen, vals) = (seen', vals')"
    and "seen = set vals" and "distinct vals" and "[] \<notin> set vals"
  shows "seen' = set vals' \<and> distinct vals' \<and> [] \<notin> set vals'"
  using assms
proof (induction items arbitrary: seen vals)
  case Nil
  then show ?case by auto
next
  case (Cons item items)
  show ?case
  proof (cases "item = [] \<or> item \<in> seen")
    case True
    with Cons.prems have "collect_items items (seen, vals) = (seen', vals')" by simp
    from Cons.IH [OF this] Cons.prems show ?thesis by simp
  next
    case False
    with Cons.prems have "collect_items items (insert item seen, vals @ [item]) = (seen', vals')"
      by simp
    moreover have "insert item seen = set (vals @ [item])" "distinct (vals @ [item])"
      "[] \<notin> set (vals @ [item])"
      using Cons.prems False by auto
    ultimately show ?thesis by (rule Cons.IH)
  qed
qed

lemma collect_countries_inv:
  assumes "collect_countries key ex pool (seen, vals) = (seen', vals')"
    and "seen = set vals" and "distinct vals" and "[] \<notin> set vals"
  shows "seen' = set vals' \<and> distinct vals' \<and> [] \<notin> set vals'"
  using assms
proof (induction pool arbitrary: seen vals)
  case Nil
  then show ?case by auto
next
  case (Cons c pool)
  show ?case
  proof (cases "name c = ex")
    case True
    with Cons.prems have "collect_countries key ex pool (seen, vals) = (seen', vals')" by simp
    from Cons.IH [OF this] Cons.prems show ?thesis by simp
  next
    case False
    obtain s1 v1 where i: "collect_items (array_field key c) (seen, vals) = (s1, v1)"
      by (cases "collect_items (array_field key c) (seen, vals)")
    from collect_items_inv [OF i] Cons.prems
    have inv: "s1 = set v1" "distinct v1" "[] \<notin> set v1" by simp_all
    from False Cons.prems i have "collect_countries key ex pool (s1, v1) = (seen', vals')"
      by simp
    from Cons.IH [OF this inv] show ?thesis .
  qed
qed

lemma collectUniqueValues_distinct:
  "distinct (collectUniqueValues pool key ex) \<and> [] \<notin> set (collectUniqueValues pool key ex)"
proof -
  obtain s v where c: "collect_countries key ex pool ({}, []) = (s, v)"
    by (cases "collect_countries key ex pool ({}, [])")
  from collect_countries_inv [OF c] show ?thesis
    by (simp add: collectUniqueValues_def c)
qed

lemma draw_distractors_props:
  "distinct distractors \<Longrightarrow> length distractors \<le> 3 \<Longrightarrow>
   distinct (fst (draw_distractors (\<lambda>candidate ds. candidate \<notin> set ds) candidates distractors rs))
   \<and> length (fst (draw_distractors (\<lambda>candidate ds. candidate \<notin> set ds) candidates distractors rs)) \<le> 3
   \<and> set (fst (draw_distractors (\<lambda>candidate ds. candidate \<notin> set ds) candidates distractors rs))
        \<subseteq> set distractors \<union> set candidates"
proof (induction "\<lambda>(candidate :: 'a) ds. candidate \<notin> set ds" candidates distractors rs
       rule: draw_distractors.induct)
  case (1 candidates distractors rs)
  let ?acc = "\<lambda>(candidate :: 'a) ds. candidate \<notin> set ds"
  show ?case
  proof (cases "candidates \<noteq> [] \<and> length distractors < 3")
    case False
    then have "draw_distractors ?acc candidates distractors rs = (distractors, rs)"
      by (subst draw_distractors.simps) (simp only: if_False)
    then show ?thesis using "1.prems" by simp
  next
    case True
    let ?i = "fst (random_below (length candidates) rs)"
    let ?rs = "snd (random_below (length candidates) rs)"
    let ?c = "candidates ! ?i"
    let ?ds = "if ?c \<notin> set distractors then distractors @ [?c] else distractors"
    have i: "?i < length candidates"
      using True by (simp add: random_below_bound)
    have d: "distinct ?ds" "length ?ds \<le> 3"
      using "1.prems" True by auto
    have u: "draw_distractors ?acc candidates distractors rs =
             draw_distractors ?acc (splice1 ?i candidates) ?ds ?rs"
      using True by (subst draw_distractors.simps) (simp add: Let_def)
    have s: "set ?ds \<union> set (splice1 ?i candidates) \<subseteq> set distractors \<union> set candidates"
      using i set_splice1 [of ?i candidates] by auto
    from "1.hyps" [OF True refl refl refl d] s show ?thesis
      unfolding u by blast
  qed
qed

lemma fill_from_fallback_props:
  "distinct distractors \<Longrightarrow> correct \<notin> set distractors \<Longrightarrow>
   distinct (fill_from_fallback correct fallback distractors)
   \<and> correct \<notin> set (fill_from_fallback correct fallback distractors)
   \<and> set (fill_from_fallback correct fallback distractors) \<subseteq> set distractors \<union> set fallback"
proof (induction fallback arbitrary: distractors)
  case Nil
  then show ?case by simp
next
  case (Cons x fallback)
  let ?ds = "if x \<noteq> correct \<and> x \<notin> set distractors then distractors @ [x] else distractors"
  have "distinct ?ds" "correct \<notin> set ?ds"
    using Cons.prems by auto
  from Cons.IH [OF this] Cons.prems show ?case
    by auto
qed

lemma fill_from_fallback_length:
  "distinct fallback \<Longrightarrow> length distractors \<le> 3 \<Longrightarrow>
   3 \<le> length distractors + length (filter (\<lambda>x. x \<noteq> correct \<and> x \<notin> set distractors) fallback) \<Longrightarrow>
   length (fill_from_fallback correct fallback distractors) = 3"
proof (induction fallback arbitrary: distractors)
  case Nil
  then show ?case by simp
next
  case (Cons x fallback)
  show ?case
  proof (cases "length distractors \<ge> 3")
    case True
    with Cons.prems show ?thesis by simp
  next
    case False
    let ?ds = "if x \<noteq> correct \<and> x \<notin> set distractors then distractors @ [x] else distractors"
    have same: "filter (\<lambda>y. y \<noteq> correct \<and> y \<notin> set ?ds) fallback =
                filter (\<lambda>y. y \<noteq> correct \<and> y \<notin> set distractors) fallback"
      using Cons.prems(1) by (intro filter_cong) auto
    have l: "length ?ds \<le> 3" using False by simp
    have "3 \<le> length ?ds + length (filter (\<lambda>y. y \<noteq> correct \<and> y \<notin> set ?ds) fallback)"
      unfolding same using Cons.prems(3) by (simp split: if_splits)
    from Cons.IH [OF _ l this] Cons.prems(1) False show ?thesis by simp
  qed
qed

lemma filter_rejected_bound:
  assumes "distinct fallback"
  shows "length fallback \<le> length (filter (\<lambda>x. x \<noteq> correct \<and> x \<notin> set distractors) fallback)
           + 1 + length distractors"
proof -
  let ?P = "\<lambda>x. x \<noteq> correct \<and> x \<notin> set distractors"
  have "length fallback = length (filter ?P fallback) + length (filter (\<lambda>x. \<not> ?P x) fallback)"
    by (rule sum_length_filter_compl [symmetric])
  moreover have "length (filter (\<lambda>x. \<not> ?P x) fallback) = card (set (filter (\<lambda>x. \<not> ?P x) fallback))"
    using assms by (simp add: distinct_card del: set_filter)
  moreover have "card (set (filter (\<lambda>x. \<not> ?P x) fallback)) \<le> card (insert correct (set distractors))"
    by (rule card_mono) auto
  moreover have "card (insert correct (set distractors)) \<le> 1 + length distractors"
    using card_length [of distractors] by (simp add: card_insert_if)
  ultimately show ?thesis by linarith
qed

lemma label_options_props:
  fixes correct :: string
  assumes "distinct candidates" and "[] \<notin> set candidates" and "correct \<notin> set candidates"
    and "distinct fallback" and "[] \<notin> set fallback" and "4 \<le> length fallback"
    and opts_def: "opts = take 4 (correct # fill_from_fallback correct fallback
            (fst (draw_distractors (\<lambda>candidate ds. candidate \<notin> set ds) candidates [] rs)))"
  shows "length opts = 4 \<and> distinct opts \<and> hd opts = correct \<and> [] \<notin> set (tl opts)
         \<and> set (tl opts) \<subseteq> set candidates \<union> set fallback"
proof -
  let ?ds = "fst (draw_distractors (\<lambda>candidate ds. candidate \<notin> set ds) candidates [] rs)"
  let ?fs = "fill_from_fallback correct fallback ?ds"
  have d: "distinct ?ds" "length ?ds \<le> 3" "set ?ds \<subseteq> set candidates"
    using draw_distractors_props [of "[]" candidates rs] by simp_all
  have c: "correct \<notin> set ?ds" using d(3) assms(3) by auto
  have f: "distinct ?fs" "correct \<notin> set ?fs" "set ?fs \<subseteq> set ?ds \<union> set fallback"
    using fill_from_fallback_props [OF d(1) c, of fallback] by simp_all
  have "3 \<le> length ?ds + length (filter (\<lambda>x. x \<noteq> correct \<and> x \<notin> set ?ds) fallback)"
    using filter_rejected_bound [OF assms(4), of correct ?ds] assms(6) by linarith
  from fill_from_fallback_length [OF assms(4) d(2) this]
  have l: "length ?fs = 3" .
  then have o: "opts = correct # ?fs" by (simp add: opts_def)
  have "set ?fs \<subseteq> set candidates \<union> set fallback" using f(3) d(3) by blast
  moreover from this have "[] \<notin> set ?fs" using assms(2,5) by blast
  ultimately show ?thesis
    using o l f by simp
qed

lemma splice1_distinct:
  assumes "distinct xs" and "i < length xs"
  shows "distinct (splice1 i xs) \<and> xs ! i \<notin> set (splice1 i xs)
       \<and> length (splice1 i xs) = length xs - 1"
proof -
  have x: "xs = take i xs @ xs ! i # drop (Suc i) xs"
    using assms(2) by (rule id_take_nth_drop)
  have "distinct (take i xs @ xs ! i # drop (Suc i) xs)"
    using assms(1) x by simp
  then have "distinct (take i xs @ drop (Suc i) xs) \<and> xs ! i \<notin> set (take i xs @ drop (Suc i) xs)"
    by auto
  moreover have "length (take i xs @ drop (Suc i) xs) = length xs - 1"
    using assms(2) by simp
  ultimately show ?thesis
    by (simp add: splice1_def)
qed

lemma draw_distractors_length:
  "distinct candidates \<Longrightarrow> set candidates \<inter> set distractors = {} \<Longrightarrow> length distractors \<le> 3 \<Longrightarrow>
   length (fst (draw_distractors (\<lambda>candidate ds. candidate \<notin> set ds) candidates distractors rs))
     = min 3 (length distractors + length candidates)"
proof (induction "\<lambda>(candidate :: 'a) ds. candidate \<notin> set ds" candidates distractors rs
       rule: draw_distractors.induct)
  case (1 candidates distractors rs)
  let ?acc = "\<lambda>(candidate :: 'a) ds. candidate \<notin> set ds"
  show ?case
  proof (cases "candidates \<noteq> [] \<and> length distractors < 3")
    case False
    then have "draw_distractors ?acc candidates distractors rs = (distractors, rs)"
      by (subst draw_distractors.simps) (simp only: if_False)
    then show ?thesis using "1.prems" False by auto
  next
    case True
    let ?i = "fst (random_below (length candidates) rs)"
    let ?rs = "snd (random_below (length candidates) rs)"
    let ?c = "candidates ! ?i"
    let ?ds = "if ?c \<notin> set distractors then distractors @ [?c] else distractors"
    have i: "?i < length candidates"
      using True by (simp add: random_below_bound)
    then have "?c \<in> set candidates" by simp
    with "1.prems"(2) have new: "?c \<notin> set distractors" by blast
    then have ds: "?ds = distractors @ [?c]" by simp
    note sp = splice1_distinct [OF "1.prems"(1) i]
    have d: "distinct (splice1 ?i candidates)" using sp by simp
    have "set (splice1 ?i candidates) \<subseteq> set candidates" by (rule set_splice1)
    with "1.prems"(2) sp have j: "set (splice1 ?i candidates) \<inter> set ?ds = {}"
      unfolding ds by auto
    have l: "length ?ds \<le> 3" using True by simp
    have u: "draw_distractors ?acc candidates distractors rs =
             draw_distractors ?acc (splice1 ?i candidates) ?ds ?rs"
      using True by (subst draw_distractors.simps) (simp add: Let_def)
    have "length ?ds + length (splice1 ?i candidates) = length distractors + length candidates"
      using sp i new by simp
    with "1.hyps" [OF True refl refl refl d j l] show ?thesis
      unfolding u by simp
  qed
qed

lemma fill_from_fallback_eq:
  "distinct fallback \<Longrightarrow> length distractors \<le> 3 \<Longrightarrow>
   fill_from_fallback correct fallback distractors =
     distractors @ take (3 - length distractors)
       (filter (\<lambda>x. x \<noteq> correct \<and> x \<notin> set distractors) fallback)"
proof (induction fallback arbitrary: distractors)
  case Nil
  then show ?case by simp
next
  case (Cons x fallback)
  show ?case
  proof (cases "length distractors \<ge> 3")
    case True
    with Cons.prems show ?thesis by simp
  next
    case False
    let ?P = "\<lambda>ds y. y \<noteq> correct \<and> y \<notin> set ds"
    show ?thesis
    proof (cases "x \<noteq> correct \<and> x \<notin> set distractors")
      case True
      have same: "filter (?P (distractors @ [x])) fallback = filter (?P distractors) fallback"
        using Cons.prems(1) by (intro filter_cong) auto
      have l: "length (distractors @ [x]) \<le> 3" using False by simp
      have "fill_from_fallback correct (x # fallback) distractors =
            fill_from_fallback correct fallback (distractors @ [x])"
        using False True by simp
      also have "\<dots> = (distractors @ [x]) @ take (3 - length (distractors @ [x]))
                          (filter (?P (distractors @ [x])) fallback)"
        using Cons.IH [OF _ l] Cons.prems(1) by simp
      also have "\<dots> = distractors @ take (3 - length distractors)
                          (x # filter (?P distractors) fallback)"
        unfolding same using False by (simp add: take_Cons')
      finally show ?thesis using True by simp
    next
      case rej: False
      have "fill_from_fallback correct (x # fallback) distractors =
            fill_from_fallback correct fallback distractors"
        using False rej by auto
      also have "\<dots> = distractors @ take (3 - length distractors)
                          (filter (?P distractors) fallback)"
        using Cons.IH [OF _ Cons.prems(2)] Cons.prems(1) by simp
      finally show ?thesis using rej by auto
    qed
  qed
qed

lemma label_options_real_first:
  fixes correct :: string
  assumes "distinct real" and "[] \<notin> set real" and "correct \<notin> set real"
    and "distinct fallback" and "[] \<notin> set fallback" and "4 \<le> length fallback"
    and opts: "opts = take 4 (correct # fill_from_fallback correct fallback
            (fst (draw_distractors (\<lambda>candidate ds. candidate \<notin> set ds) real [] rs)))"
  shows "real_then_fallback correct real fallback opts \<and> [] \<notin> set (tl opts)"
proof -
  let ?ds = "fst (draw_distractors (\<lambda>candidate ds. candidate \<notin> set ds) real [] rs)"
  let ?k = "min 3 (length real)"
  note p = label_options_props [OF assms(1-6) opts]
  have k: "length ?ds = ?k"
    using draw_distractors_length [OF assms(1), of "[]" rs] by simp
  have d: "set ?ds \<subseteq> set real"
    using draw_distractors_props [of "[]" real rs] by simp
  have f: "fill_from_fallback correct fallback ?ds =
           ?ds @ take (3 - ?k) (filter (\<lambda>x. x \<noteq> correct \<and> x \<notin> set ?ds) fallback)"
    using fill_from_fallback_eq [OF assms(4), of ?ds correct] k by simp
  have "length (fill_from_fallback correct fallback ?ds) \<le> 3"
    unfolding f using k by simp
  moreover have "length opts = 4" using p by simp
  then have "3 \<le> length (fill_from_fallback correct fallback ?ds)"
    unfolding opts by simp
  ultimately have "length (fill_from_fallback correct fallback ?ds) = 3"
    by simp
  then have "tl opts = fill_from_fallback correct fallback ?ds"
    unfolding opts by simp
  with f have t: "tl opts = ?ds @ take (3 - ?k) (filter (\<lambda>x. x \<noteq> correct \<and> x \<notin> set ?ds) fallback)"
    by simp
  have tk: "take ?k (tl opts) = ?ds"
    unfolding t using k by simp
  have dr: "drop ?k (tl opts) = take (3 - ?k) (filter (\<lambda>x. x \<noteq> correct \<and> x \<notin> set ?ds) fallback)"
    unfolding t using k by simp
  show ?thesis
    using p d unfolding tk using dr tk by simp
qed

text \<open>
  C4: for every non-empty correct currency (or language) and every pool, the empty pool
  included, generateCurrencyOptions (or generateLanguageOptions) returns exactly four pairwise
  distinct non-empty labels whose first element is the correct one. Of the three distractors,
  as many as there are real candidates in the pool, up to three, are real candidates; only
  the shortfall is filled, with the first entries of the fallback list that are neither the
  correct label nor a chosen candidate.
\<close>

theorem label_options_real_then_fallback:
  assumes "correct \<noteq> []"
  shows "(case generateCurrencyOptions correct pool countryName rs of (opts, rs') \<Rightarrow>
            real_then_fallback correct (real_candidates pool ''currencies'' countryName correct)
              fallbackCurrencies opts
            \<and> [] \<notin> set opts)
       \<and> (case generateLanguageOptions correct pool countryName rs of (opts, rs') \<Rightarrow>
            real_then_fallback correct (real_candidates pool ''languages'' countryName correct)
              fallbackLanguages opts
            \<and> [] \<notin> set opts)"
proof -
  have g: "real_then_fallback correct (real_candidates pool key countryName correct) fallback opts
           \<and> [] \<notin> set opts"
    if "distinct fallback" "[] \<notin> set fallback" "4 \<le> length fallback"
      and "opts = take 4 (correct # fill_from_fallback correct fallback
            (fst (draw_distractors (\<lambda>candidate ds. candidate \<notin> set ds)
               (real_candidates pool key countryName correct) [] rs)))"
    for opts fallback key
  proof -
    let ?real = "real_candidates pool key countryName correct"
    have "distinct ?real" "[] \<notin> set ?real" "correct \<notin> set ?real"
      using collectUniqueValues_distinct [of pool key countryName] by simp_all
    note p = label_options_real_first [OF this that]
    then have "length opts = 4" "hd opts = correct" "[] \<notin> set (tl opts)"
      by simp_all
    then have "[] \<notin> set opts"
      using assms by (cases opts) auto
    with p show ?thesis by blast
  qed
  have cur: "distinct fallbackCurrencies" "[] \<notin> set fallbackCurrencies" "4 \<le> length fallbackCurrencies"
    by (simp_all add: fallbackCurrencies_def)
  have lan: "distinct fallbackLanguages" "[] \<notin> set fallbackLanguages" "4 \<le> length fallbackLanguages"
    by (simp_all add: fallbackLanguages_def)
  have "fst (generateCurrencyOptions correct pool countryName rs) =
          take 4 (correct # fill_from_fallback correct fallbackCurrencies
            (fst (draw_distractors (\<lambda>candidate ds. candidate \<notin> set ds)
               (real_candidates pool ''currencies'' countryName correct) [] rs)))"
    by (simp add: generateCurrencyOptions_def Let_def split_beta)
  note c = g [OF cur this]
  have "fst (generateLanguageOptions correct pool countryName rs) =
          take 4 (correct # fill_from_fallback correct fallbackLanguages
            (fst (draw_distractors (\<lambda>candidate ds. candidate \<notin> set ds)
               (real_candidates pool ''languages'' countryName correct) [] rs)))"
    by (simp add: generateLanguageOptions_def Let_def split_beta)
  note l = g [OF lan this]
  from c l show ?thesis
    unfolding split_beta by blast
qed

theorem label_options_real_then_fallback_witness:
  "''French'' \<noteq> []
   \<and> generateLanguageOptions ''French'' twelve_countries ''France'' [4, 1, 6] =
       ([''French'', ''Arabic'', ''English'', ''Dutch''], [])
   \<and> real_candidates twelve_countries ''languages'' ''France'' ''French'' =
       [''Hindi'', ''English'', ''Portuguese'', ''Japanese'', ''Arabic'', ''Swahili'', ''Spanish'',
        ''Norwegian'', ''Dutch'']
   \<and> generateLanguageOptions ''French'' [france, japan] ''France'' [0] =
       ([''French'', ''Japanese'', ''English'', ''Spanish''], [])
   \<and> real_candidates [france, japan] ''languages'' ''France'' ''French'' = [''Japanese'']
   \<and> [] \<notin> set (fst (generateLanguageOptions ''French'' twelve_countries ''France'' [4, 1, 6]))
   \<and> [] \<notin> set (fst (generateCurrencyOptions ''French'' twelve_countries ''France'' [4, 1, 6]))
   \<and> set (take (min 3 (length (real_candidates twelve_countries ''languages'' ''France'' ''French'')))
              (tl (fst (generateLanguageOptions ''French'' twelve_countries ''France'' [4, 1, 6]))))
       \<subseteq> set (real_candidates twelve_countries ''languages'' ''France'' ''French'')"
proof -
  have n: "''French'' \<noteq> []"
    by simp
  have e: "generateLanguageOptions ''French'' twelve_countries ''France'' [4, 1, 6] =
       ([''French'', ''Arabic'', ''English'', ''Dutch''], [])"
    "real_candidates twelve_countries ''languages'' ''France'' ''French'' =
       [''Hindi'', ''English'', ''Portuguese'', ''Japanese'', ''Arabic'', ''Swahili'', ''Spanish'',
        ''Norwegian'', ''Dutch'']"
    "generateLanguageOptions ''French'' [france, japan] ''France'' [0] =
       ([''French'', ''Japanese'', ''English'', ''Spanish''], [])"
    "real_candidates [france, japan] ''languages'' ''France'' ''French'' = [''Japanese'']"
    by code_simp+
  from label_options_real_then_fallback
    [OF n, where pool = twelve_countries and countryName = "''France''" and rs = "[4, 1, 6]",
     unfolded split_beta]
    n e
  show ?thesis
    by blast
qed

text \<open>
  For the empty label as the correct one the first of the four labels is empty, so the
  labels are not all non-empty. The callers never pass it: buildCurrencyQuestion and
  buildLanguagesQuestion return null before, by hasDataForType.
\<close>

theorem label_options_empty_correct_counterexample:
  "generateCurrencyOptions [] [] ''X'' [] = ([[], ''Euro'', ''United States dollar'', ''Yen''], [])
   \<and> [] \<in> set (fst (generateCurrencyOptions [] [] ''X'' []))
   \<and> generateLanguageOptions [] [] ''X'' [] = ([[], ''English'', ''Spanish'', ''French''], [])
   \<and> [] \<in> set (fst (generateLanguageOptions [] [] ''X'' []))"
  by code_simp

subsection \<open>Population options\<close>

lemma round_products_1000:
  "map (round_product 1000) fallbackMultipliers = [550, 750, 1200, 1400, 1800]"
  by code_simp

lemma fallback_candidate_1000:
  "max 100000 (round_product 1000 (fallbackMultipliers ! (k mod length fallbackMultipliers))) = 100000"
proof -
  have l: "length fallbackMultipliers = 5"
    by (simp add: fallbackMultipliers_def)
  have "k mod 5 < 5" by simp
  then have "round_product 1000 (fallbackMultipliers ! (k mod 5)) =
             [550, 750, 1200, 1400, 1800] ! (k mod 5)"
    by (metis l nth_map round_products_1000)
  moreover have "\<forall>i<5. [550, 750, 1200, 1400, 1800::int] ! i \<le> 100000"
    by (simp add: All_less_Suc numeral_eq_Suc)
  ultimately show ?thesis
    using l \<open>k mod 5 < 5\<close> by (metis max.absorb1)
qed

lemma fallback_loop_stuck:
  assumes "population_fallback_loop c ds k = Some y"
  shows "\<not> (c = 1000 \<and> ds = [100000])"
proof (rule population_fallback_loop.raw_induct
    [where P = "\<lambda>c ds k y. \<not> (c = 1000 \<and> ds = [100000])", OF _ assms], goal_cases)
  case (1 loop c ds k y)
  show ?case
  proof
    assume a: "c = 1000 \<and> ds = [100000]"
    with "1"(2) have "loop 1000 [100000] (k + 1) = Some y"
      by (simp add: fallback_candidate_1000 Let_def)
    from "1"(1) [OF this] show False by simp
  qed
qed

lemma fallback_loop_1000: "population_fallback_loop 1000 [] 0 = None"
proof -
  have "population_fallback_loop 1000 [] 0 = population_fallback_loop 1000 [100000] 1"
    using fallback_candidate_1000 [of 0]
    by (subst population_fallback_loop.simps) (simp add: Let_def)
  moreover have "population_fallback_loop 1000 [100000] 1 = None"
    using fallback_loop_stuck [of 1000 "[100000]" 1] by (cases "population_fallback_loop 1000 [100000] 1") auto
  ultimately show ?thesis by simp
qed

text \<open>
  C2: generatePopulationOptions is meant to return four distinct values for every positive
  correct population and every pool. For the correct population 1000 and a pool without
  another country, every fallback candidate \<^verbatim>\<open>Math.max(100000, Math.round(1000 * m))\<close> is
  100000: after the first one is taken, no round of the loop adds a distractor, and the call
  never returns, whatever the random draws. The same holds for generateQuestionSet on an engine
  whose only country has the population 1000.
\<close>

theorem generatePopulationOptions_never_returns:
  "generatePopulationOptions 1000 [] ''Vatican City'' rs = None
   \<and> generateQuestionSet ''population'' 10 vatican_engine rs = None"
proof -
  have d: "draw_distractors accept [] [] rs = ([], rs)" for accept :: "int \<Rightarrow> int list \<Rightarrow> bool" and rs
    by (subst draw_distractors.simps) simp
  have g: "generatePopulationOptions 1000 pool ''Vatican City'' rs = None"
    if "filter (\<lambda>item. name item \<noteq> ''Vatican City'' \<and> hasDataForType item ''population'') pool = []"
    for pool rs
    using that by (simp add: generatePopulationOptions_def unique_values_def d fallback_loop_1000)
  have b: "buildQuestionForType ''population'' vatican [vatican] rs = None" for rs
    using g [of "[vatican]" rs]
    by (simp add: buildQuestionForType_def buildPopulationQuestion_def hasDataForType_def vatican_def
        loaded_country_def)
  have a: "getCountriesForType ''population'' 10 vatican_engine rs = ([vatican], rs)"
    by (simp add: getCountriesForType_def vatican_engine_def hasDataForType_def uniqueByName_def
        vatican_def loaded_country_def)
  have s: "shuffleArray [vatican] rs = ([vatican], rs)"
    by (simp add: shuffleArray_def)
  have o: "uniqueByName ([vatican] @ countries vatican_engine) = [vatican]"
    by (simp add: uniqueByName_def vatican_engine_def vatican_def loaded_country_def)
  have "generateQuestionSet ''population'' 10 vatican_engine rs = None"
    unfolding generateQuestionSet_def a
    by (simp add: s o b del: append.simps)
  with g [of "[]" rs] show ?thesis by simp
qed

subsection \<open>Questions of a set\<close>

lemma findIndex_found:
  "findIndex p xs \<noteq> - 1 \<Longrightarrow>
   0 \<le> findIndex p xs \<and> nat (findIndex p xs) < length xs \<and> p (xs ! nat (findIndex p xs))"
proof (induction xs)
  case Nil
  then show ?case by simp
next
  case (Cons x xs)
  show ?case
  proof (cases "p x")
    case True
    then show ?thesis by simp
  next
    case False
    with Cons.prems have n: "findIndex p xs \<noteq> - 1"
      by (auto simp add: Let_def)
    from Cons.IH [OF n] have i: "0 \<le> findIndex p xs" "nat (findIndex p xs) < length xs"
      "p (xs ! nat (findIndex p xs))" by simp_all
    have "nat (findIndex p xs + 1) = Suc (nat (findIndex p xs))"
      using i(1) by simp
    with False n i show ?thesis by (simp add: Let_def)
  qed
qed

lemma unique_from_distinct:
  "distinct (unique_from seen xs) \<and> set (unique_from seen xs) \<inter> seen = {}"
  by (induction xs arbitrary: seen) auto

lemma unique_values_distinct: "distinct (unique_values xs)"
  by (simp add: unique_values_def unique_from_distinct)

lemma uniqueLabels_distinct: "distinct (uniqueLabels xs)"
proof -
  let ?keep = "filter (\<lambda>i. xs ! i \<noteq> [] \<and> indexOf xs (xs ! i) = int i) [0..<length xs]"
  have "inj_on (\<lambda>i. xs ! i) (set ?keep)"
  proof (rule inj_onI)
    fix i j
    assume a: "i \<in> set ?keep" "j \<in> set ?keep" and e: "xs ! i = xs ! j"
    from a have "indexOf xs (xs ! i) = int i" "indexOf xs (xs ! j) = int j"
      by simp_all
    with e show "i = j" by (metis of_nat_eq_iff)
  qed
  then show ?thesis
    unfolding uniqueLabels_def by (simp add: distinct_map)
qed

lemma filter_eq_single:
  "distinct xs \<Longrightarrow> x \<in> set xs \<Longrightarrow> length (filter (\<lambda>v. v = x) xs) = 1"
  by (induction xs) (auto simp add: filter_empty_conv)

lemma shuffled_options_shape:
  assumes "distinct uniq" and "length uniq = 4" and "inj V"
    and "shuffleArray (map V uniq) rs1 = (sh, rs2)"
    and "findIndex (\<lambda>opt. opt = V correct) sh \<noteq> - 1"
  shows "length sh = 4 \<and> distinct sh
       \<and> length (filter (\<lambda>v. v = V correct) sh) = 1
       \<and> 0 \<le> findIndex (\<lambda>opt. opt = V correct) sh
       \<and> findIndex (\<lambda>opt. opt = V correct) sh < 4
       \<and> sh ! nat (findIndex (\<lambda>opt. opt = V correct) sh) = V correct"
proof -
  have m: "mset sh = mset (map V uniq)"
    using shuffleArray_mset [of "map V uniq" rs1] assms(4) by simp
  have l: "length sh = 4"
    using shuffleArray_length [of "map V uniq" rs1] assms(2,4) by simp
  have "distinct (map V uniq)"
    using assms(1,3) by (simp add: distinct_map inj_on_def inj_def)
  then have d: "distinct sh"
    using m by (metis mset_eq_imp_distinct_iff)
  from findIndex_found [OF assms(5)]
  have f: "0 \<le> findIndex (\<lambda>opt. opt = V correct) sh"
    "nat (findIndex (\<lambda>opt. opt = V correct) sh) < length sh"
    "sh ! nat (findIndex (\<lambda>opt. opt = V correct) sh) = V correct"
    by simp_all
  then have "V correct \<in> set sh" by (metis nth_mem)
  from filter_eq_single [OF d this] l d f show ?thesis by simp
qed

lemma buildPopulationQuestion_shape:
  assumes "buildPopulationQuestion c pool rs = Some (Some qu, rs')"
  shows "question_about ''population'' c (NumberValue (population c)) qu"
proof -
  have h: "hasDataForType c ''population''"
    using assms by (auto simp add: buildPopulationQuestion_def split: if_splits)
  obtain raw rs1 where g: "generatePopulationOptions (population c) pool (name c) rs = Some (raw, rs1)"
    using assms h
    by (cases "generatePopulationOptions (population c) pool (name c) rs")
      (auto simp add: buildPopulationQuestion_def Let_def)
  let ?uniq = "take 4 (unique_values raw)"
  obtain sh rs2 where s: "shuffleArray (map NumberValue ?uniq) rs1 = (sh, rs2)"
    by (cases "shuffleArray (map NumberValue ?uniq) rs1")
  let ?i = "findIndex (\<lambda>opt. opt = NumberValue (population c)) sh"
  from assms h g s have r: "length ?uniq = 4" "?i \<noteq> - 1"
    "qu = \<lparr>qtype = ''population'', country = name c, options = sh, correctIndex = ?i\<rparr>"
    by (auto simp add: buildPopulationQuestion_def Let_def split: if_splits)
  have d: "distinct ?uniq"
    by (simp add: unique_values_distinct)
  have "inj NumberValue" by (simp add: inj_def)
  from shuffled_options_shape [OF d r(1) this s r(2)] h r(3) show ?thesis
    by simp
qed

lemma buildCurrencyQuestion_shape:
  assumes "buildCurrencyQuestion c pool rs = (Some qu, rs')"
  shows "question_about ''currency'' c (StringValue (hd (currencies c))) qu"
proof -
  have h: "hasDataForType c ''currency''"
    using assms by (auto simp add: buildCurrencyQuestion_def split: if_splits)
  obtain labels rs1 where g: "generateCurrencyOptions (hd (currencies c)) pool (name c) rs = (labels, rs1)"
    by (cases "generateCurrencyOptions (hd (currencies c)) pool (name c) rs")
  let ?uniq = "take 4 (uniqueLabels labels)"
  obtain sh rs2 where s: "shuffleArray (map StringValue ?uniq) rs1 = (sh, rs2)"
    by (cases "shuffleArray (map StringValue ?uniq) rs1")
  let ?i = "findIndex (\<lambda>opt. opt = StringValue (hd (currencies c))) sh"
  from assms h g s have r: "length ?uniq = 4" "?i \<noteq> - 1"
    "qu = \<lparr>qtype = ''currency'', country = name c, options = sh, correctIndex = ?i\<rparr>"
    by (auto simp add: buildCurrencyQuestion_def Let_def split: if_splits)
  have d: "distinct ?uniq"
    by (simp add: uniqueLabels_distinct)
  have "inj StringValue" by (simp add: inj_def)
  from shuffled_options_shape [OF d r(1) this s r(2)] h r(3) show ?thesis
    by simp
qed

lemma buildLanguagesQuestion_shape:
  assumes "buildLanguagesQuestion c pool rs = (Some qu, rs')"
  shows "question_about ''languages'' c (StringValue (hd (languages c))) qu"
proof -
  have h: "hasDataForType c ''languages''"
    using assms by (auto simp add: buildLanguagesQuestion_def split: if_splits)
  obtain labels rs1 where g: "generateLanguageOptions (hd (languages c)) pool (name c) rs = (labels, rs1)"
    by (cases "generateLanguageOptions (hd (languages c)) pool (name c) rs")
  let ?uniq = "take 4 (uniqueLabels labels)"
  obtain sh rs2 where s: "shuffleArray (map StringValue ?uniq) rs1 = (sh, rs2)"
    by (cases "shuffleArray (map StringValue ?uniq) rs1")
  let ?i = "findIndex (\<lambda>opt. opt = StringValue (hd (languages c))) sh"
  from assms h g s have r: "length ?uniq = 4" "?i \<noteq> - 1"
    "qu = \<lparr>qtype = ''languages'', country = name c, options = sh, correctIndex = ?i\<rparr>"
    by (auto simp add: buildLanguagesQuestion_def Let_def split: if_splits)
  have d: "distinct ?uniq"
    by (simp add: uniqueLabels_distinct)
  have "inj StringValue" by (simp add: inj_def)
  from shuffled_options_shape [OF d r(1) this s r(2)] h r(3) show ?thesis
    by simp
qed

lemma buildQuestionForType_shape:
  assumes "buildQuestionForType type c pool rs = Some (Some qu, rs')"
  shows "question_about type c (answer_of type c) qu"
proof -
  consider (p) "type = ''population''" | (c) "type = ''currency''" | (l) "type = ''languages''"
    | (o) "type \<noteq> ''population''" "type \<noteq> ''currency''" "type \<noteq> ''languages''"
    by blast
  then show ?thesis
  proof cases
    case p
    with assms have "buildPopulationQuestion c pool rs = Some (Some qu, rs')"
      by (simp add: buildQuestionForType_def)
    from buildPopulationQuestion_shape [OF this] p show ?thesis by simp
  next
    case c
    with assms have "buildCurrencyQuestion c pool rs = (Some qu, rs')"
      by (simp add: buildQuestionForType_def)
    from buildCurrencyQuestion_shape [OF this] c show ?thesis by simp
  next
    case l
    with assms have "buildLanguagesQuestion c pool rs = (Some qu, rs')"
      by (simp add: buildQuestionForType_def)
    from buildLanguagesQuestion_shape [OF this] l show ?thesis by simp
  next
    case o
    with assms show ?thesis by (simp add: buildQuestionForType_def)
  qed
qed

lemma first_loop_questions:
  assumes "first_loop type optionPool desiredCount cs questions tried rs = Some (questions', tried', rs')"
    and "\<forall>qu \<in> set questions. \<exists>c \<in> S. question_about type c (answer_of type c) qu"
    and "set cs \<subseteq> S"
  shows "\<forall>qu \<in> set questions'. \<exists>c \<in> S. question_about type c (answer_of type c) qu"
  using assms
proof (induction cs arbitrary: questions tried rs)
  case Nil
  then show ?case by simp
next
  case (Cons c rest)
  have S: "set rest \<subseteq> S" "c \<in> S" using Cons.prems(3) by simp_all
  show ?case
  proof (cases "length questions < desiredCount")
    case False
    with Cons.prems(1,2) show ?thesis by simp
  next
    case True
    show ?thesis
    proof (cases "name c \<in> tried")
      case True
      with \<open>length questions < desiredCount\<close> Cons.prems(1)
      have "first_loop type optionPool desiredCount rest questions tried rs = Some (questions', tried', rs')"
        by simp
      from Cons.IH [OF this Cons.prems(2) S(1)] show ?thesis .
    next
      case False
      show ?thesis
      proof (cases "buildQuestionForType type c optionPool rs")
        case None
        with True False Cons.prems(1) show ?thesis by simp
      next
        case (Some r)
        obtain oq rs1 where r: "r = (oq, rs1)" by (cases r)
        show ?thesis
        proof (cases oq)
          case None
          with True False Some r Cons.prems(1)
          have "first_loop type optionPool desiredCount rest questions (insert (name c) tried) rs1
                = Some (questions', tried', rs')"
            by simp
          from Cons.IH [OF this Cons.prems(2) S(1)] show ?thesis .
        next
          case (Some qu)
          with True False \<open>buildQuestionForType type c optionPool rs = Some r\<close> r Cons.prems(1)
          have l: "first_loop type optionPool desiredCount rest (questions @ [qu])
                  (insert (name c) tried) rs1 = Some (questions', tried', rs')"
            by simp
          have "buildQuestionForType type c optionPool rs = Some (Some qu, rs1)"
            using \<open>buildQuestionForType type c optionPool rs = Some r\<close> r Some by simp
          from buildQuestionForType_shape [OF this] S(2)
          have "\<exists>c \<in> S. question_about type c (answer_of type c) qu" by blast
          with Cons.prems(2)
          have "\<forall>qu \<in> set (questions @ [qu]). \<exists>c \<in> S. question_about type c (answer_of type c) qu"
            by simp
          from Cons.IH [OF l this S(1)] show ?thesis .
        qed
      qed
    qed
  qed
qed

lemma fallback_loop_questions:
  assumes "fallback_loop type optionPool desiredCount cs questions tried rs = Some (questions', tried', rs')"
    and "\<forall>qu \<in> set questions. \<exists>c \<in> S. question_about type c (answer_of type c) qu"
    and "set cs \<subseteq> S"
  shows "\<forall>qu \<in> set questions'. \<exists>c \<in> S. question_about type c (answer_of type c) qu"
  using assms
proof (induction cs arbitrary: questions tried rs)
  case Nil
  then show ?case by simp
next
  case (Cons c rest)
  have S: "set rest \<subseteq> S" "c \<in> S" using Cons.prems(3) by simp_all
  show ?case
  proof (cases "length questions < desiredCount")
    case False
    with Cons.prems(1,2) show ?thesis by simp
  next
    case True
    show ?thesis
    proof (cases "hasDataForType c type")
      case False
      with \<open>length questions < desiredCount\<close> Cons.prems(1)
      have "fallback_loop type optionPool desiredCount rest questions tried rs = Some (questions', tried', rs')"
        by simp
      from Cons.IH [OF this Cons.prems(2) S(1)] show ?thesis .
    next
      case data: True
      show ?thesis
      proof (cases "buildQuestionForType type c optionPool rs")
        case None
        with True data Cons.prems(1) show ?thesis by simp
      next
        case (Some r)
        obtain oq rs1 where r: "r = (oq, rs1)" by (cases r)
        show ?thesis
        proof (cases oq)
          case None
          with True data Some r Cons.prems(1)
          have "fallback_loop type optionPool desiredCount rest questions tried rs1
                = Some (questions', tried', rs')"
            by simp
          from Cons.IH [OF this Cons.prems(2) S(1)] show ?thesis .
        next
          case (Some qu)
          with True data \<open>buildQuestionForType type c optionPool rs = Some r\<close> r Cons.prems(1)
          have l: "fallback_loop type optionPool desiredCount rest (questions @ [qu])
                  (insert (name c) tried) rs1 = Some (questions', tried', rs')"
            by simp
          have "buildQuestionForType type c optionPool rs = Some (Some qu, rs1)"
            using \<open>buildQuestionForType type c optionPool rs = Some r\<close> r Some by simp
          from buildQuestionForType_shape [OF this] S(2)
          have "\<exists>c \<in> S. question_about type c (answer_of type c) qu" by blast
          with Cons.prems(2)
          have "\<forall>qu \<in> set (questions @ [qu]). \<exists>c \<in> S. question_about type c (answer_of type c) qu"
            by simp
          from Cons.IH [OF l this S(1)] show ?thesis .
        qed
      qed
    qed
  qed
qed

lemma uniqueByName_from_subset: "set (uniqueByName_from seen cs) \<subseteq> set cs"
  by (induction cs arbitrary: seen) auto

lemma uniqueByName_subset: "set (uniqueByName cs) \<subseteq> set cs"
  by (simp add: uniqueByName_def uniqueByName_from_subset)

lemma getCountriesForType_subset:
  "set (fst (getCountriesForType type desiredCount q rs)) \<subseteq> set (countries q) \<union> set (countryPool q)"
proof -
  let ?U = "set (countries q) \<union> set (countryPool q)"
  let ?n = "max (if desiredCount = 0 then REST_COUNTRIES_SAMPLE_SIZE else desiredCount)
              REST_COUNTRIES_SAMPLE_SIZE"
  let ?has = "\<lambda>country. hasDataForType country type"
  obtain sh rs1 where s: "shuffleArray (countries q) rs = (sh, rs1)"
    by (cases "shuffleArray (countries q) rs")
  define base where "base = (if countryPool q \<noteq> [] then countryPool q else take ?n sh)"
  have "set (take ?n sh) \<subseteq> set (countries q)"
    using shuffleArray_set [of "countries q" rs] s set_take_subset [of ?n sh] by simp
  then have b: "set base \<subseteq> ?U"
    by (auto simp add: base_def)
  define rsb where "rsb = (if countryPool q \<noteq> [] then rs else rs1)"
  have bp: "(if countryPool q \<noteq> [] then (countryPool q, rs)
             else let (shuffled, rs1) = shuffleArray (countries q) rs
                  in (take ?n shuffled, rs1)) = (base, rsb)"
    by (simp add: s base_def rsb_def)
  have r: "getCountriesForType type desiredCount q rs =
        (if filter ?has base \<noteq> [] then (uniqueByName (filter ?has base), rsb)
         else (uniqueByName (filter ?has base @ filter ?has (countries q)), rsb))"
    unfolding getCountriesForType_def bp by (simp only: Let_def split_conv)
  have r1: "fst (getCountriesForType type desiredCount q rs) = uniqueByName (filter ?has base)"
    if "filter ?has base \<noteq> []"
    using that by (simp add: r)
  have r2: "fst (getCountriesForType type desiredCount q rs) =
            uniqueByName (filter ?has (countries q))"
    if "filter ?has base = []"
    using that by (simp add: r)
  have u1: "set (uniqueByName (filter ?has base)) \<subseteq> ?U"
    using uniqueByName_subset [of "filter ?has base"] b by auto
  have u2: "set (uniqueByName (filter ?has (countries q))) \<subseteq> ?U"
    using uniqueByName_subset [of "filter ?has (countries q)"] by auto
  show ?thesis
  proof (cases "filter ?has base = []")
    case True
    from u2 show ?thesis unfolding r2 [OF True] .
  next
    case False
    from u1 show ?thesis unfolding r1 [OF False] .
  qed
qed

text \<open>
  C1: every question returned by generateQuestionSet is about a country \<open>c\<close> of the engine
  that has data for the type; its options are exactly four pairwise distinct values, exactly
  one of them is the true answer of \<open>c\<close> (its population, its first currency or its first
  language), and correctIndex, between 0 and 3, is the index of that option.
\<close>

theorem generateQuestionSet_questions_well_formed:
  assumes "generateQuestionSet type desiredCount q rs = Some (questions, rs')"
    and "qu \<in> set questions"
  shows "\<exists>c \<in> set (countries q) \<union> set (countryPool q).
           country qu = name c \<and> qtype qu = type \<and> hasDataForType c type
           \<and> length (options qu) = 4 \<and> distinct (options qu)
           \<and> length (filter (\<lambda>v. v = answer_of type c) (options qu)) = 1
           \<and> 0 \<le> correctIndex qu \<and> correctIndex qu < 4
           \<and> options qu ! nat (correctIndex qu) = answer_of type c"
proof -
  let ?U = "set (countries q) \<union> set (countryPool q)"
  obtain available rs1 where a: "getCountriesForType type desiredCount q rs = (available, rs1)"
    by (cases "getCountriesForType type desiredCount q rs")
  have av: "set available \<subseteq> ?U"
    using getCountriesForType_subset [of type desiredCount q rs] a by simp
  show ?thesis
  proof (cases "available = []")
    case True
    with assms a show ?thesis by (simp add: generateQuestionSet_def)
  next
    case False
    obtain shuffled rs2 where s: "shuffleArray available rs1 = (shuffled, rs2)"
      by (cases "shuffleArray available rs1")
    have sh: "set shuffled \<subseteq> ?U"
      using shuffleArray_set [of available rs1] s av by simp
    let ?pool = "uniqueByName (available @ countries q)"
    obtain qs1 tried rs3 where
      f: "first_loop type ?pool desiredCount shuffled [] {} rs2 = Some (qs1, tried, rs3)"
      using assms(1) a False s
      by (cases "first_loop type ?pool desiredCount shuffled [] {} rs2")
        (auto simp add: generateQuestionSet_def)
    have q1: "\<forall>qu \<in> set qs1. \<exists>c \<in> ?U. question_about type c (answer_of type c) qu"
      using first_loop_questions [OF f _ sh] by simp
    show ?thesis
    proof (cases "length qs1 < desiredCount")
      case False
      with assms(1) a \<open>available \<noteq> []\<close> s f have "questions = take desiredCount qs1"
        by (simp add: generateQuestionSet_def)
      with assms(2) have "qu \<in> set qs1" by (auto dest: in_set_takeD)
      with q1 show ?thesis by blast
    next
      case True
      obtain sh2 rs4 where s2: "shuffleArray (countries q) rs3 = (sh2, rs4)"
        by (cases "shuffleArray (countries q) rs3")
      let ?fb = "filter (\<lambda>c. name c \<notin> tried) sh2"
      have fb: "set ?fb \<subseteq> ?U"
        using shuffleArray_set [of "countries q" rs3] s2 by auto
      obtain qs2 tried2 rs5 where
        g: "fallback_loop type ?pool desiredCount ?fb qs1 tried rs4 = Some (qs2, tried2, rs5)"
        using assms(1) a \<open>available \<noteq> []\<close> s f True s2
        by (cases "fallback_loop type ?pool desiredCount ?fb qs1 tried rs4")
          (auto simp add: generateQuestionSet_def)
      have q2: "\<forall>qu \<in> set qs2. \<exists>c \<in> ?U. question_about type c (answer_of type c) qu"
        using fallback_loop_questions [OF g q1 fb] .
      from assms(1) a \<open>available \<noteq> []\<close> s f True s2 g have "questions = take desiredCount qs2"
        by (simp add: generateQuestionSet_def)
      with assms(2) have "qu \<in> set qs2" by (auto dest: in_set_takeD)
      with q2 show ?thesis by blast
    qed
  qed
qed

theorem generateQuestionSet_questions_well_formed_witness:
  "generateQuestionSet ''currency'' 10 three_pooled [1, 0, 2, 1, 3, 0, 2, 2, 1, 1, 0, 2, 1, 3, 0, 2, 2, 1, 0] =
     Some ([\<lparr>qtype = ''currency'', country = ''France'',
              options = [StringValue ''Japanese yen'', StringValue ''Brazilian real'',
                         StringValue ''Euro'', StringValue ''United States dollar''],
              correctIndex = 2\<rparr>,
            \<lparr>qtype = ''currency'', country = ''Japan'',
              options = [StringValue ''United States dollar'', StringValue ''Euro'',
                         StringValue ''Japanese yen'', StringValue ''Brazilian real''],
              correctIndex = 2\<rparr>,
            \<lparr>qtype = ''currency'', country = ''Brazil'',
              options = [StringValue ''Euro'', StringValue ''United States dollar'',
                         StringValue ''Japanese yen'', StringValue ''Brazilian real''],
              correctIndex = 3\<rparr>], [])
   \<and> (\<exists>c \<in> set (countries three_pooled) \<union> set (countryPool three_pooled).
         name c = ''Japan'' \<and> hasDataForType c ''currency''
         \<and> StringValue (hd (currencies c)) = StringValue ''Japanese yen'')"
proof -
  let ?france = "\<lparr>qtype = ''currency'', country = ''France'',
              options = [StringValue ''Japanese yen'', StringValue ''Brazilian real'',
                         StringValue ''Euro'', StringValue ''United States dollar''],
              correctIndex = 2\<rparr>"
  let ?japan = "\<lparr>qtype = ''currency'', country = ''Japan'',
              options = [StringValue ''United States dollar'', StringValue ''Euro'',
                         StringValue ''Japanese yen'', StringValue ''Brazilian real''],
              correctIndex = 2\<rparr>"
  let ?brazil = "\<lparr>qtype = ''currency'', country = ''Brazil'',
              options = [StringValue ''Euro'', StringValue ''United States dollar'',
                         StringValue ''Japanese yen'', StringValue ''Brazilian real''],
              correctIndex = 3\<rparr>"
  have e: "generateQuestionSet ''currency'' 10 three_pooled [1, 0, 2, 1, 3, 0, 2, 2, 1, 1, 0, 2, 1, 3, 0, 2, 2, 1, 0] =
           Some ([?france, ?japan, ?brazil], [])"
    by code_simp
  have m: "?japan \<in> set [?france, ?japan, ?brazil]"
    by simp
  from generateQuestionSet_questions_well_formed [OF e m]
  obtain c where c: "c \<in> set (countries three_pooled) \<union> set (countryPool three_pooled)"
    "country ?japan = name c" "hasDataForType c ''currency''"
    "options ?japan ! nat (correctIndex ?japan) = answer_of ''currency'' c"
    by blast
  from c(2,4) have "name c = ''Japan''" "StringValue (hd (currencies c)) = StringValue ''Japanese yen''"
    by simp_all
  with c(1,3) e show ?thesis
    by blast
qed

subsection \<open>Countries of a set\<close>

lemma buildQuestionForType_country:
  "buildQuestionForType type c pool rs = Some (Some qu, rs') \<Longrightarrow> country qu = name c"
  using buildQuestionForType_shape [of type c pool rs qu rs'] by simp

lemma first_loop_distinct:
  assumes "first_loop type optionPool desiredCount cs questions tried rs = Some (questions', tried', rs')"
    and "set (map country questions) \<subseteq> tried" and "distinct (map country questions)"
  shows "set (map country questions') \<subseteq> tried' \<and> distinct (map country questions')"
  using assms
proof (induction cs arbitrary: questions tried rs)
  case Nil
  then show ?case by simp
next
  case (Cons c rest)
  show ?case
  proof (cases "length questions < desiredCount")
    case False
    with Cons.prems show ?thesis by simp
  next
    case True
    show ?thesis
    proof (cases "name c \<in> tried")
      case True
      with \<open>length questions < desiredCount\<close> Cons.prems(1)
      have "first_loop type optionPool desiredCount rest questions tried rs = Some (questions', tried', rs')"
        by simp
      from Cons.IH [OF this Cons.prems(2,3)] show ?thesis .
    next
      case False
      show ?thesis
      proof (cases "buildQuestionForType type c optionPool rs")
        case None
        with True False Cons.prems(1) show ?thesis by simp
      next
        case (Some r)
        obtain oq rs1 where r: "r = (oq, rs1)" by (cases r)
        show ?thesis
        proof (cases oq)
          case None
          with True False Some r Cons.prems(1)
          have l: "first_loop type optionPool desiredCount rest questions (insert (name c) tried) rs1
                = Some (questions', tried', rs')"
            by simp
          have "set (map country questions) \<subseteq> insert (name c) tried"
            using Cons.prems(2) by blast
          from Cons.IH [OF l this Cons.prems(3)] show ?thesis .
        next
          case (Some qu)
          with True False \<open>buildQuestionForType type c optionPool rs = Some r\<close> r Cons.prems(1)
          have l: "first_loop type optionPool desiredCount rest (questions @ [qu])
                  (insert (name c) tried) rs1 = Some (questions', tried', rs')"
            by simp
          have "buildQuestionForType type c optionPool rs = Some (Some qu, rs1)"
            using \<open>buildQuestionForType type c optionPool rs = Some r\<close> r Some by simp
          then have n: "country qu = name c"
            by (rule buildQuestionForType_country)
          have a: "set (map country (questions @ [qu])) \<subseteq> insert (name c) tried"
            using Cons.prems(2) n by auto
          have b: "distinct (map country (questions @ [qu]))"
            using Cons.prems(2,3) n False by auto
          from Cons.IH [OF l a b] show ?thesis .
        qed
      qed
    qed
  qed
qed

lemma fallback_loop_distinct:
  assumes "fallback_loop type optionPool desiredCount cs questions tried rs = Some (questions', tried', rs')"
    and "distinct (map country questions)" and "distinct (map name cs)"
    and "set (map name cs) \<inter> set (map country questions) = {}"
  shows "distinct (map country questions')"
  using assms
proof (induction cs arbitrary: questions tried rs)
  case Nil
  then show ?case by simp
next
  case (Cons c rest)
  have rest: "distinct (map name rest)" "set (map name rest) \<inter> set (map country questions) = {}"
    "name c \<notin> set (map name rest)" "name c \<notin> set (map country questions)"
    using Cons.prems(3,4) by auto
  show ?case
  proof (cases "length questions < desiredCount")
    case False
    with Cons.prems show ?thesis by simp
  next
    case True
    show ?thesis
    proof (cases "hasDataForType c type")
      case False
      with \<open>length questions < desiredCount\<close> Cons.prems(1)
      have "fallback_loop type optionPool desiredCount rest questions tried rs = Some (questions', tried', rs')"
        by simp
      from Cons.IH [OF this Cons.prems(2) rest(1,2)] show ?thesis .
    next
      case data: True
      show ?thesis
      proof (cases "buildQuestionForType type c optionPool rs")
        case None
        with True data Cons.prems(1) show ?thesis by simp
      next
        case (Some r)
        obtain oq rs1 where r: "r = (oq, rs1)" by (cases r)
        show ?thesis
        proof (cases oq)
          case None
          with True data Some r Cons.prems(1)
          have "fallback_loop type optionPool desiredCount rest questions tried rs1
                = Some (questions', tried', rs')"
            by simp
          from Cons.IH [OF this Cons.prems(2) rest(1,2)] show ?thesis .
        next
          case (Some qu)
          with True data \<open>buildQuestionForType type c optionPool rs = Some r\<close> r Cons.prems(1)
          have l: "fallback_loop type optionPool desiredCount rest (questions @ [qu])
                  (insert (name c) tried) rs1 = Some (questions', tried', rs')"
            by simp
          have "buildQuestionForType type c optionPool rs = Some (Some qu, rs1)"
            using \<open>buildQuestionForType type c optionPool rs = Some r\<close> r Some by simp
          then have n: "country qu = name c"
            by (rule buildQuestionForType_country)
          have a: "distinct (map country (questions @ [qu]))"
            using Cons.prems(2) rest(4) n by simp
          have b: "set (map name rest) \<inter> set (map country (questions @ [qu])) = {}"
            using rest(2,3) n by auto
          from Cons.IH [OF l a rest(1) b] show ?thesis .
        qed
      qed
    qed
  qed
qed

text \<open>
  What holds of the countries of a set: it has at most desiredCount questions, and when the
  names of the loaded countries are pairwise distinct, so are the countries of its questions.
\<close>

lemma generateQuestionSet_length_and_distinct:
  assumes "generateQuestionSet type desiredCount q rs = Some (questions, rs')"
  shows "length questions \<le> desiredCount
       \<and> (distinct (map name (countries q)) \<longrightarrow> distinct (map country questions))"
proof -
  obtain available rs1 where a: "getCountriesForType type desiredCount q rs = (available, rs1)"
    by (cases "getCountriesForType type desiredCount q rs")
  show ?thesis
  proof (cases "available = []")
    case True
    with assms a show ?thesis by (simp add: generateQuestionSet_def)
  next
    case False
    obtain shuffled rs2 where s: "shuffleArray available rs1 = (shuffled, rs2)"
      by (cases "shuffleArray available rs1")
    let ?pool = "uniqueByName (available @ countries q)"
    obtain qs1 tried rs3 where
      f: "first_loop type ?pool desiredCount shuffled [] {} rs2 = Some (qs1, tried, rs3)"
      using assms(1) a False s
      by (cases "first_loop type ?pool desiredCount shuffled [] {} rs2")
        (auto simp add: generateQuestionSet_def)
    have q1: "set (map country qs1) \<subseteq> tried" "distinct (map country qs1)"
      using first_loop_distinct [OF f] by simp_all
    show ?thesis
    proof (cases "length qs1 < desiredCount")
      case False
      with assms(1) a \<open>available \<noteq> []\<close> s f have "questions = take desiredCount qs1"
        by (simp add: generateQuestionSet_def)
      with q1(2) show ?thesis
        by (simp add: take_map [symmetric])
    next
      case True
      obtain sh2 rs4 where s2: "shuffleArray (countries q) rs3 = (sh2, rs4)"
        by (cases "shuffleArray (countries q) rs3")
      let ?fb = "filter (\<lambda>c. name c \<notin> tried) sh2"
      obtain qs2 tried2 rs5 where
        g: "fallback_loop type ?pool desiredCount ?fb qs1 tried rs4 = Some (qs2, tried2, rs5)"
        using assms(1) a \<open>available \<noteq> []\<close> s f True s2
        by (cases "fallback_loop type ?pool desiredCount ?fb qs1 tried rs4")
          (auto simp add: generateQuestionSet_def)
      from assms(1) a \<open>available \<noteq> []\<close> s f True s2 g have r: "questions = take desiredCount qs2"
        by (simp add: generateQuestionSet_def)
      have "distinct (map country qs2)" if d: "distinct (map name (countries q))"
      proof -
        have "mset (map name sh2) = mset (map name (countries q))"
          using shuffleArray_mset [of "countries q" rs3] s2 by (metis fst_conv mset_map)
        with d have "distinct (map name sh2)"
          by (metis mset_eq_imp_distinct_iff)
        then have fd: "distinct (map name ?fb)"
          by (rule distinct_map_filter)
        have "set (map name ?fb) \<inter> set (map country qs1) = {}"
          using q1(1) by auto
        from fallback_loop_distinct [OF g q1(2) fd this] show ?thesis .
      qed
      with r show ?thesis
        by (simp add: take_map [symmetric])
    qed
  qed
qed

text \<open>
  C3: a question set is meant to have at most desiredCount questions, no two of them about
  the same country. The first loop skips a country whose name is in \<^verbatim>\<open>tried\<close>; the
  second loop filters its pool by \<^verbatim>\<open>tried\<close> once, before it starts, and then adds to
  \<^verbatim>\<open>tried\<close> without reading it. With the twelve loaded countries, the pool of the first
  ten and the type currency, the first loop gives eight questions and the second adds both
  countries named Saint Martin: the set of ten questions has two questions about Saint Martin.
  The random draws are those of \<open>draws\<close>.
\<close>

theorem generateQuestionSet_repeats_country:
  "map name (countryPool pooled_engine) =
     [''India'', ''Brazil'', ''Japan'', ''Egypt'', ''France'', ''Kenya'', ''Peru'', ''Norway'',
      ''Palestine'', ''Antarctica'']
   \<and> map_option (\<lambda>(questions, rs). map country questions)
         (generateQuestionSet ''currency'' 10 pooled_engine draws) =
       Some [''Peru'', ''Egypt'', ''Brazil'', ''France'', ''Norway'', ''India'', ''Japan'', ''Kenya'',
             ''Saint Martin'', ''Saint Martin'']"
  by code_simp

end
